theory Spec2Isabelle
  imports Main "HOL-Library.Sublist"
begin

section \<open>Python strings\<close>

text \<open>
  Strings are byte strings (\<open>char list\<close>); the model covers ASCII text, where
  \<open>str.lower\<close> changes exactly the letters A to Z.  The functions below are the
  string methods the two harvesters call.
\<close>

definition lower_char :: "char \<Rightarrow> char" where
  "lower_char c =
     (let n = (of_char c :: nat) in if 65 \<le> n \<and> n \<le> 90 then char_of (n + 32) else c)"

definition lower :: "string \<Rightarrow> string" where
  "lower s = map lower_char s"

fun startswith :: "string \<Rightarrow> string \<Rightarrow> bool" where
  "startswith s [] = True"
| "startswith [] (p # ps) = False"
| "startswith (c # cs) (p # ps) = (c = p \<and> startswith cs ps)"

definition endswith :: "string \<Rightarrow> string \<Rightarrow> bool" where
  "endswith s suf = startswith (rev s) (rev suf)"

text \<open>\<open>str_contains s sub\<close> is Python's \<open>sub in s\<close>.\<close>

fun str_contains :: "string \<Rightarrow> string \<Rightarrow> bool" where
  "str_contains [] sub = (sub = [])"
| "str_contains (c # cs) sub = (startswith (c # cs) sub \<or> str_contains cs sub)"

text \<open>\<open>split_char sep s\<close> is \<open>s.split(sep)\<close> for a one-character separator; the
  result is never empty, so its item 0 always exists.\<close>

fun split_char :: "char \<Rightarrow> string \<Rightarrow> string list" where
  "split_char sep [] = [[]]"
| "split_char sep (c # cs) =
     (if c = sep then [] # split_char sep cs
      else (case split_char sep cs of
              [] \<Rightarrow> [[c]]
            | w # ws \<Rightarrow> (c # w) # ws))"

fun join :: "string \<Rightarrow> string list \<Rightarrow> string" where
  "join sep [] = []"
| "join sep [w] = w"
| "join sep (w # v # ws) = w @ sep @ join sep (v # ws)"

definition is_space :: "char \<Rightarrow> bool" where
  "is_space c = (let n = (of_char c :: nat) in (9 \<le> n \<and> n \<le> 13) \<or> (28 \<le> n \<and> n \<le> 32))"

definition strip_chars :: "(char \<Rightarrow> bool) \<Rightarrow> string \<Rightarrow> string" where
  "strip_chars P s = rev (dropWhile P (rev (dropWhile P s)))"

definition strip :: "string \<Rightarrow> string" where
  "strip s = strip_chars is_space s"

text \<open>\<open>re_sub_runs P rep s\<close> is \<open>re.sub("[...]+", rep, s)\<close> for a character class
  \<open>P\<close>: every maximal run of characters of the class becomes one \<open>rep\<close>.\<close>

function re_sub_runs :: "(char \<Rightarrow> bool) \<Rightarrow> string \<Rightarrow> string \<Rightarrow> string" where
  "re_sub_runs P rep [] = []"
| "re_sub_runs P rep (c # cs) =
     (if P c then rep @ re_sub_runs P rep (dropWhile P cs) else c # re_sub_runs P rep cs)"
  by pat_completeness auto
termination
  by (relation "measure (\<lambda>(P, rep, s). length s)")
     (auto simp: less_Suc_eq_le length_dropWhile_le)

text \<open>\<open>re.sub("[...]", "", s)\<close>: every character of the class is removed.\<close>

definition re_sub_each_empty :: "(char \<Rightarrow> bool) \<Rightarrow> string \<Rightarrow> string" where
  "re_sub_each_empty P s = filter (\<lambda>c. \<not> P c) s"

definition replace_char :: "char \<Rightarrow> char \<Rightarrow> string \<Rightarrow> string" where
  "replace_char old new s = map (\<lambda>c. if c = old then new else c) s"

section \<open>pdf\_harvester.py: utilities\<close>

definition is_lower_alnum :: "char \<Rightarrow> bool" where
  "is_lower_alnum c =
     (let n = (of_char c :: nat) in (97 \<le> n \<and> n \<le> 122) \<or> (48 \<le> n \<and> n \<le> 57))"

definition slugify :: "string \<Rightarrow> string" where
  "slugify s0 =
     (let s = strip (lower s0);
          s = re_sub_runs (\<lambda>c. \<not> is_lower_alnum c) ''_'' s
      in strip_chars (\<lambda>c. c = CHR ''_'') (re_sub_runs (\<lambda>c. c = CHR ''_'') ''_'' s))"

definition is_pdf_url :: "string \<Rightarrow> bool" where
  "is_pdf_url url = (let base = lower (hd (split_char CHR ''?'' url)) in endswith base ''.pdf'')"

definition safe_filename :: "string \<Rightarrow> string" where
  "safe_filename institution =
     (let slug = slugify institution;
          parts = take 2 (split_char CHR ''_'' slug);
          short = join ''_'' parts
      in short @ ''_2026.pdf'')"

definition contains_any :: "string \<Rightarrow> string list \<Rightarrow> bool" where
  "contains_any text hints = (let t = lower text in list_ex (\<lambda>h. str_contains t (lower h)) hints)"

definition MAX_CANDIDATE_LINKS :: nat where
  "MAX_CANDIDATE_LINKS = 10"

text \<open>\<open>list(dict.fromkeys(xs))\<close>: the keys of a dictionary filled in the order of
  \<open>xs\<close>; a key already present keeps its place.\<close>

definition dict_fromkeys :: "'a list \<Rightarrow> 'a list" where
  "dict_fromkeys xs = fold (\<lambda>x keys. if x \<in> set keys then keys else keys @ [x]) xs []"

definition url_keywords :: "string list" where
  "url_keywords = [''pdf'', ''download'', ''outlook'', ''report'', ''publication'']"

text \<open>The body of \<open>collect_candidate_links\<close> once the anchors' hrefs are read.\<close>

definition candidate_links_of :: "string list \<Rightarrow> string list" where
  "candidate_links_of hrefs =
     (let pdfs = filter is_pdf_url hrefs in
      if pdfs \<noteq> [] then take MAX_CANDIDATE_LINKS (dict_fromkeys pdfs)
      else (let keywords = url_keywords;
                pdfish = filter (\<lambda>h. list_ex (\<lambda>k. str_contains (lower h) k) keywords) hrefs
            in take MAX_CANDIDATE_LINKS (dict_fromkeys pdfish)))"

section \<open>utils.py and harvester.py: pure parts\<close>

text \<open>The class of \<open>[\\/*?:"<>|]\<close>.\<close>

definition invalid_filename_char :: "char \<Rightarrow> bool" where
  "invalid_filename_char c =
     (c \<in> set [CHR 0x5C, CHR ''/'', CHR ''*'', CHR ''?'', CHR '':'', CHR 0x22,
                CHR ''<'', CHR ''>'', CHR ''|''])"

text \<open>\<open>sanitize_filename\<close>; \<open>now\<close> is \<open>datetime.now().strftime("%Y%m%d")\<close>.\<close>

definition sanitize_filename :: "string \<Rightarrow> string \<Rightarrow> string" where
  "sanitize_filename institution now =
     (let safe_institution =
            replace_char CHR '' '' CHR ''_'' (re_sub_each_empty invalid_filename_char institution);
          date_str = now
      in safe_institution @ ''_2026_Outlook_'' @ date_str @ ''.pdf'')"

text \<open>A navigation response: its headers and its URL.\<close>

record response =
  resp_headers :: "string \<Rightarrow> string option"
  resp_url :: string

text \<open>\<open>PdfHarvester._is_pdf_response\<close>.\<close>

definition is_pdf_response :: "response option \<Rightarrow> bool" where
  "is_pdf_response resp =
     (case resp of
        None \<Rightarrow> False
      | Some r \<Rightarrow>
          (let content_type =
                 lower (case resp_headers r ''content-type'' of None \<Rightarrow> [] | Some v \<Rightarrow> v)
           in str_contains content_type ''application/pdf''
              \<or> endswith (lower (resp_url r)) ''.pdf''))"

datatype exn = TimeoutError string | Error string | NameError string

text \<open>\<open>repr(s)\<close> of a string: between double quotes when \<open>s\<close> holds a single
  quote and no double quote, between single quotes otherwise.  The quote in use and the
  backslash get a backslash in front; tab, newline and carriage return become a backslash
  and the letter t, n or r; every other control character becomes a backslash, the letter
  x and two hexadecimal digits.  Bytes above 127 encode printable characters and are
  copied.\<close>

definition hex_digit :: "nat \<Rightarrow> char" where
  "hex_digit n = ''0123456789abcdef'' ! (n mod 16)"

definition repr_char :: "char \<Rightarrow> char \<Rightarrow> string" where
  "repr_char quote c =
     (let n = (of_char c :: nat) in
      if c = quote \<or> c = CHR 0x5C then [CHR 0x5C, c]
      else if c = CHR 0x09 then [CHR 0x5C, CHR ''t'']
      else if c = CHR 0x0A then [CHR 0x5C, CHR ''n'']
      else if c = CHR 0x0D then [CHR 0x5C, CHR ''r'']
      else if n < 32 \<or> n = 127 then [CHR 0x5C, CHR ''x'', hex_digit (n div 16), hex_digit n]
      else [c])"

definition str_repr :: "string \<Rightarrow> string" where
  "str_repr s =
     (let quote = (if CHR 0x27 \<in> set s \<and> CHR 0x22 \<notin> set s then CHR 0x22 else CHR 0x27)
      in [quote] @ concat (map (repr_char quote) s) @ [quote])"

text \<open>\<open>os.path.join(a, p)\<close> on POSIX paths: a second path that starts with a slash
  replaces the first.\<close>

definition os_path_join :: "string \<Rightarrow> string \<Rightarrow> string" where
  "os_path_join a p =
     (if startswith p ''/'' then p
      else if a = [] \<or> endswith a ''/'' then a @ p
      else a @ ''/'' @ p)"

text \<open>\<open>str(e)\<close> and \<open>repr(e)\<close> of an exception raised with its message as only
  argument.\<close>

fun exn_str :: "exn \<Rightarrow> string" where
  "exn_str (TimeoutError m) = m"
| "exn_str (Error m) = m"
| "exn_str (NameError m) = m"

fun exn_repr :: "exn \<Rightarrow> string" where
  "exn_repr (TimeoutError m) = ''TimeoutError('' @ str_repr m @ '')''"
| "exn_repr (Error m) = ''Error('' @ str_repr m @ '')''"
| "exn_repr (NameError m) = ''NameError('' @ str_repr m @ '')''"

text \<open>An anchor element as \<open>_try_fallback_links\<close> reads it: what
  \<open>get_attribute("href")\<close> and \<open>text_content()\<close> give (an exception, Python's
  \<open>None\<close>, or a string).\<close>

record anchor =
  get_attribute_href :: "exn + string option"
  text_content :: "exn + string option"

definition FALLBACK_LINK_KEYWORDS :: "string list" where
  "FALLBACK_LINK_KEYWORDS = [''pdf'', ''download'', ''report'', ''outlook'']"

definition link_score :: "string \<Rightarrow> string option \<Rightarrow> int" where
  "link_score href text =
     (let score = 0;
          score = (if endswith (lower href) ''.pdf'' then score + 10 else score);
          score = (if str_contains (lower href) ''pdf'' then score + 5 else score);
          score = (if (case text of
                         None \<Rightarrow> False
                       | Some t \<Rightarrow>
                           t \<noteq> [] \<and> list_ex (\<lambda>k. str_contains (lower t) k) FALLBACK_LINK_KEYWORDS)
                   then score + 3 else score)
      in score)"

text \<open>The first loop of \<open>_try_fallback_links\<close>: an anchor whose attribute or text
  cannot be read is skipped, as is one without an href.\<close>

fun scan_links :: "anchor list \<Rightarrow> (int \<times> string) list \<Rightarrow> (int \<times> string) list" where
  "scan_links [] candidates = candidates"
| "scan_links (link # links) candidates =
     (case get_attribute_href link of
        Inl e \<Rightarrow> scan_links links candidates
      | Inr href \<Rightarrow>
          (case text_content link of
             Inl e \<Rightarrow> scan_links links candidates
           | Inr text \<Rightarrow>
               (case href of
                  None \<Rightarrow> scan_links links candidates
                | Some h \<Rightarrow>
                    if h = [] then scan_links links candidates
                    else (let score = link_score h text in
                          if score > 0 then scan_links links (candidates @ [(score, h)])
                          else scan_links links candidates))))"

text \<open>\<open>candidates.sort(key=lambda x: x[0], reverse=True)\<close>: Python's sort is stable,
  also when reversed, so it is the stable sort by the negated score.\<close>

definition sort_reverse_by_score :: "(int \<times> string) list \<Rightarrow> (int \<times> string) list" where
  "sort_reverse_by_score candidates = sort_key (\<lambda>c. - fst c) candidates"

definition top_candidates :: "anchor list \<Rightarrow> (int \<times> string) list" where
  "top_candidates links = take 10 (sort_reverse_by_score (scan_links links []))"

section \<open>The specification's words, for comparison\<close>

text \<open>Deduplication that keeps the first occurrence of every element.\<close>

fun first_seen :: "'a list \<Rightarrow> 'a list" where
  "first_seen [] = []"
| "first_seen (x # xs) = x # first_seen (removeAll x xs)"

text \<open>A URL that holds one of the report-like keywords.\<close>

definition url_has_keyword :: "string \<Rightarrow> bool" where
  "url_has_keyword h = list_ex (\<lambda>k. str_contains (lower h) k) url_keywords"

text \<open>An href that ends in \<open>.pdf\<close>, as written.\<close>

definition ends_in_pdf :: "string \<Rightarrow> bool" where
  "ends_in_pdf h = endswith h ''.pdf''"

text \<open>The either/or collector in the specification's words: the hrefs that end in
  \<open>.pdf\<close> if there is one, the hrefs with a keyword in the URL otherwise; deduplicated
  keeping the first occurrence, at most 10.\<close>

definition either_or_links :: "string list \<Rightarrow> string list" where
  "either_or_links hrefs =
     (if list_ex ends_in_pdf hrefs
      then take 10 (first_seen (filter ends_in_pdf hrefs))
      else take 10 (first_seen (filter url_has_keyword hrefs)))"

text \<open>A link text that holds a download-hint keyword.\<close>

definition text_has_hint :: "string option \<Rightarrow> bool" where
  "text_has_hint text =
     (case text of
        None \<Rightarrow> False
      | Some t \<Rightarrow> list_ex (\<lambda>k. str_contains (lower t) k) FALLBACK_LINK_KEYWORDS)"

text \<open>The candidate an anchor contributes: its score and href when both reads succeed,
  the href is not empty and the score is positive.\<close>

definition kept_anchor :: "anchor \<Rightarrow> (int \<times> string) option" where
  "kept_anchor link =
     (case (get_attribute_href link, text_content link) of
        (Inr (Some h), Inr text) \<Rightarrow>
          if h \<noteq> [] \<and> link_score h text > 0 then Some (link_score h text, h) else None
      | _ \<Rightarrow> None)"

text \<open>The first two words of the slug, joined again.\<close>

definition short_slug :: "string \<Rightarrow> string" where
  "short_slug institution = join ''_'' (take 2 (split_char CHR ''_'' (slugify institution)))"

section \<open>The browser\<close>

text \<open>
  Playwright is outside the two modules.  Every call they make into it is a field of the
  record \<open>env\<close>: a function of the state of the world outside (the browser, the
  sites, the clock) that gives the value the call returns, or the exception it raises,
  and the next state of the world.  Pages, elements and downloads are handles.  The
  attribute \<open>page.url\<close> and the responses a page has received are read off the world.
  Each call is appended to a trace, together with a mark at the entry of each function of
  the source, so that the order of the calls can be stated.
\<close>

type_synonym page = nat
type_synonym element = nat
type_synonym download = nat

datatype role = Button | Link

datatype event =
    Call string
  | New_page
  | Goto page string
  | Inner_text page
  | Role_count page role string
  | Role_click page role string
  | Locator_count page string
  | Locator_click page string
  | Evaluate page string
  | Is_visible page string
  | Click page string
  | Content page
  | Wait_for_load_state page
  | Locator_all page string
  | Element_is_visible element
  | Element_click element
  | Expect_download page
  | Download_value page
  | Save_as download string
  | Screenshot page string
  | Hrefs page
  | Close page
  | Sleep nat

record 'w env =
  new_page :: "'w \<Rightarrow> (exn + page) \<times> 'w"
  close :: "page \<Rightarrow> 'w \<Rightarrow> (exn + unit) \<times> 'w"
  goto :: "page \<Rightarrow> string \<Rightarrow> 'w \<Rightarrow> (exn + response option) \<times> 'w"
  page_url :: "page \<Rightarrow> 'w \<Rightarrow> string"
  responses :: "page \<Rightarrow> 'w \<Rightarrow> response list"
  inner_text :: "page \<Rightarrow> string \<Rightarrow> 'w \<Rightarrow> (exn + string) \<times> 'w"
  role_count :: "page \<Rightarrow> role \<Rightarrow> string \<Rightarrow> 'w \<Rightarrow> (exn + nat) \<times> 'w"
  role_click :: "page \<Rightarrow> role \<Rightarrow> string \<Rightarrow> nat \<Rightarrow> 'w \<Rightarrow> (exn + unit) \<times> 'w"
  locator_count :: "page \<Rightarrow> string \<Rightarrow> 'w \<Rightarrow> (exn + nat) \<times> 'w"
  locator_click :: "page \<Rightarrow> string \<Rightarrow> nat \<Rightarrow> 'w \<Rightarrow> (exn + unit) \<times> 'w"
  evaluate :: "page \<Rightarrow> string \<Rightarrow> 'w \<Rightarrow> (exn + unit) \<times> 'w"
  eval_hrefs :: "page \<Rightarrow> 'w \<Rightarrow> (exn + string list) \<times> 'w"
  expect_download :: "page \<Rightarrow> nat \<Rightarrow> 'w \<Rightarrow> (exn + unit) \<times> 'w"
  download_value :: "page \<Rightarrow> 'w \<Rightarrow> (exn + download) \<times> 'w"
  save_as :: "download \<Rightarrow> string \<Rightarrow> 'w \<Rightarrow> (exn + unit) \<times> 'w"
  screenshot :: "page \<Rightarrow> string \<Rightarrow> 'w \<Rightarrow> (exn + unit) \<times> 'w"
  sleep :: "nat \<Rightarrow> 'w \<Rightarrow> 'w"
  is_visible :: "page \<Rightarrow> string \<Rightarrow> 'w \<Rightarrow> (exn + bool) \<times> 'w"
  click :: "page \<Rightarrow> string \<Rightarrow> 'w \<Rightarrow> (exn + unit) \<times> 'w"
  content :: "page \<Rightarrow> 'w \<Rightarrow> (exn + string) \<times> 'w"
  wait_for_load_state :: "page \<Rightarrow> 'w \<Rightarrow> (exn + unit) \<times> 'w"
  locator_all :: "page \<Rightarrow> string \<Rightarrow> 'w \<Rightarrow> (exn + element list) \<times> 'w"
  anchors_all :: "page \<Rightarrow> 'w \<Rightarrow> (exn + anchor list) \<times> 'w"
  element_is_visible :: "element \<Rightarrow> 'w \<Rightarrow> (exn + bool) \<times> 'w"
  element_click :: "element \<Rightarrow> 'w \<Rightarrow> (exn + unit) \<times> 'w"
  now_date :: "'w \<Rightarrow> string"
  now_stamp :: "'w \<Rightarrow> string"
  base_dir :: string

record 'w state =
  world :: 'w
  trace :: "event list"

definition perform :: "event \<Rightarrow> ('w \<Rightarrow> 'a \<times> 'w) \<Rightarrow> 'w state \<Rightarrow> 'a \<times> 'w state" where
  "perform ev op s = (case op (world s) of (x, w) \<Rightarrow> (x, \<lparr>world = w, trace = trace s @ [ev]\<rparr>))"

definition do_sleep :: "'w env \<Rightarrow> nat \<Rightarrow> 'w state \<Rightarrow> 'w state" where
  "do_sleep b ms s = snd (perform (Sleep ms) (\<lambda>w. ((), sleep b ms w)) s)"

definition mark :: "string \<Rightarrow> 'w state \<Rightarrow> 'w state" where
  "mark f s = s\<lparr>trace := trace s @ [Call f]\<rparr>"

section \<open>pdf\_harvester.py: configuration\<close>

definition COOKIE_TEXTS :: "string list" where
  "COOKIE_TEXTS = [''Accept all'', ''Accept All'', ''Accept'', ''I agree'', ''I Agree'', ''Agree'',
     ''OK'', ''Okay'', ''Allow all'', ''Got it'', ''Accept cookies'', ''Accept Cookies'']"

definition CLOSE_TEXTS :: "string list" where
  "CLOSE_TEXTS = [''Close'', ''Dismiss'', ''No thanks'', ''Not now'']"

definition DOWNLOAD_HINTS :: "string list" where
  "DOWNLOAD_HINTS = [''download full pdf'', ''download pdf'', ''download'', ''pdf'',
     ''full report'', ''report pdf'', ''outlook'', ''view pdf'', ''download report'']"

definition GATE_HINTS :: "string list" where
  "GATE_HINTS = [''financial intermediary'', ''professional investor'', ''institutional investor'',
     ''retail investor'', ''accredited'', ''qualified investor'', ''i certify'',
     ''jurisdiction'', ''disclaimer'', ''terms and conditions'', ''important information'']"

definition PROFILE_MAP :: "(string \<times> string list) list" where
  "PROFILE_MAP =
     [(''retail'', [''Retail'', ''Individual'', ''Private investor'', ''Private Investor'']),
      (''professional'', [''Professional'', ''Qualified'', ''Professional investor'', ''Professional Investor'']),
      (''institutional'', [''Institutional'', ''Financial intermediary'', ''Intermediary'', ''Institutional Investor''])]"

text \<open>The two directories are relative \<open>pathlib\<close> paths; the names joined to them
  are made of a slug and a suffix and hold no slash.\<close>

definition DOWNLOAD_DIR :: string where
  "DOWNLOAD_DIR = ''downloads''"

definition SCREENSHOT_DIR :: string where
  "SCREENSHOT_DIR = ''logs/screenshots''"

definition TIMEOUT_MS :: nat where
  "TIMEOUT_MS = 45000"

definition close_selectors :: "string list" where
  "close_selectors = [''button[aria-label='' @ [CHR 0x27] @ ''Close'' @ [CHR 0x27] @ '']'',
     ''button[aria-label='' @ [CHR 0x27] @ ''close'' @ [CHR 0x27] @ '']'',
     ''button:has-text('' @ [CHR 0x27, CHR 0xC3, CHR 0x83, CHR 0xE2, CHR 0x80, CHR 0x94, CHR 0x27] @ '')'']"

record HarvestResult =
  institution :: string
  start_url :: string
  final_url :: "string option"
  status :: string
  file_path :: "string option"
  result_notes :: "string option"
  actions :: "string list"

definition new_result :: "string \<Rightarrow> string \<Rightarrow> HarvestResult" where
  "new_result inst url =
     \<lparr>institution = inst, start_url = url, final_url = None, status = ''error'',
      file_path = None, result_notes = None, actions = []\<rparr>"

definition append_action :: "string \<Rightarrow> HarvestResult \<Rightarrow> HarvestResult" where
  "append_action a r = r\<lparr>actions := actions r @ [a]\<rparr>"

section \<open>pdf\_harvester.py: handlers\<close>

definition body_text :: "'w env \<Rightarrow> page \<Rightarrow> 'w state \<Rightarrow> string \<times> 'w state" where
  "body_text b page s =
     (case perform (Inner_text page) (inner_text b page ''body'') s of
        (Inl e, s1) \<Rightarrow> ([], s1)
      | (Inr txt, s1) \<Rightarrow> (txt, s1))"

text \<open>One \<open>try\<close> block of \<open>click_by_text\<close>: count the elements of the role whose name
  matches, click the first if there is one; any exception counts as no click.\<close>

definition click_role :: "'w env \<Rightarrow> page \<Rightarrow> role \<Rightarrow> string \<Rightarrow> nat \<Rightarrow> 'w state \<Rightarrow> bool \<times> 'w state" where
  "click_role b page rl t timeout_ms s =
     (case perform (Role_count page rl t) (role_count b page rl t) s of
        (Inl e, s1) \<Rightarrow> (False, s1)
      | (Inr n, s1) \<Rightarrow>
          if n > 0 then
            (case perform (Role_click page rl t) (role_click b page rl t timeout_ms) s1 of
               (Inl e, s2) \<Rightarrow> (False, s2)
             | (Inr u, s2) \<Rightarrow> (True, s2))
          else (False, s1))"

fun click_by_text :: "'w env \<Rightarrow> page \<Rightarrow> string list \<Rightarrow> nat \<Rightarrow> 'w state \<Rightarrow> bool \<times> 'w state" where
  "click_by_text b page [] timeout_ms s = (False, s)"
| "click_by_text b page (t # texts) timeout_ms s =
     (case click_role b page Button t timeout_ms s of
        (True, s1) \<Rightarrow> (True, s1)
      | (False, s1) \<Rightarrow>
          (case click_role b page Link t timeout_ms s1 of
             (True, s2) \<Rightarrow> (True, s2)
           | (False, s2) \<Rightarrow> click_by_text b page texts timeout_ms s2))"

definition handle_cookies :: "'w env \<Rightarrow> page \<Rightarrow> HarvestResult \<Rightarrow> 'w state \<Rightarrow> HarvestResult \<times> 'w state" where
  "handle_cookies b page r s =
     (case click_by_text b page COOKIE_TEXTS 1500 (mark ''handle_cookies'' s) of
        (True, s1) \<Rightarrow> (append_action ''accepted_cookies'' r, s1)
      | (False, s1) \<Rightarrow> (r, s1))"

definition handle_linkedin_interstitial ::
  "'w env \<Rightarrow> page \<Rightarrow> HarvestResult \<Rightarrow> 'w state \<Rightarrow> HarvestResult \<times> 'w state" where
  "handle_linkedin_interstitial b page r s0 =
     (let s = mark ''handle_linkedin_interstitial'' s0 in
      if str_contains (page_url b page (world s)) ''linkedin.com'' then
        (case body_text b page s of
           (txt, s1) \<Rightarrow>
             if str_contains (lower txt) ''leaving'' then
               (case click_by_text b page [''Continue'', ''Go to link'', ''Proceed''] 2000 s1 of
                  (True, s2) \<Rightarrow>
                    (append_action ''handled_linkedin_redirect'' r,
                     do_sleep b 2000 s2)
                | (False, s2) \<Rightarrow> (r, s2))
             else (r, s1))
      else (r, s))"

text \<open>The loop of \<open>close_modals\<close> over the selectors of close icons: the first
  selector whose click succeeds ends it.\<close>

fun click_close_icons ::
  "'w env \<Rightarrow> page \<Rightarrow> string list \<Rightarrow> HarvestResult \<Rightarrow> 'w state \<Rightarrow> HarvestResult \<times> 'w state" where
  "click_close_icons b page [] r s = (r, s)"
| "click_close_icons b page (sel # sels) r s =
     (case perform (Locator_count page sel) (locator_count b page sel) s of
        (Inl e, s1) \<Rightarrow> click_close_icons b page sels r s1
      | (Inr n, s1) \<Rightarrow>
          if n > 0 then
            (case perform (Locator_click page sel) (locator_click b page sel 800) s1 of
               (Inl e, s2) \<Rightarrow> click_close_icons b page sels r s2
             | (Inr u, s2) \<Rightarrow> (append_action ''closed_modal_x'' r, s2))
          else click_close_icons b page sels r s1)"

definition close_modals :: "'w env \<Rightarrow> page \<Rightarrow> HarvestResult \<Rightarrow> 'w state \<Rightarrow> HarvestResult \<times> 'w state" where
  "close_modals b page r s =
     (case click_by_text b page CLOSE_TEXTS 1500 (mark ''close_modals'' s) of
        (clicked, s1) \<Rightarrow>
          click_close_icons b page close_selectors
            (if clicked then append_action ''closed_modal'' r else r) s1)"

definition detect_gate :: "'w env \<Rightarrow> page \<Rightarrow> 'w state \<Rightarrow> bool \<times> 'w state" where
  "detect_gate b page s = (case body_text b page s of (txt, s1) \<Rightarrow> (contains_any txt GATE_HINTS, s1))"

text \<open>\<open>resolve_gate\<close>; the module constant \<open>INVESTOR_PROFILE\<close> is the argument
  \<open>profile\<close>.\<close>

definition resolve_gate ::
  "'w env \<Rightarrow> string \<Rightarrow> page \<Rightarrow> HarvestResult \<Rightarrow> 'w state
     \<Rightarrow> (bool \<times> string) \<times> HarvestResult \<times> 'w state" where
  "resolve_gate b profile page r s0 =
     (case detect_gate b page (mark ''resolve_gate'' s0) of
        (False, s1) \<Rightarrow> ((True, ''no_gate''), r, s1)
      | (True, s1) \<Rightarrow>
          (let r1 = append_action ''gate_detected'' r in
           if profile = ''unknown'' then
             ((False, ''Gate detected; profile=unknown => manual required.''), r1, s1)
           else
             (let choices = (case map_of PROFILE_MAP profile of None \<Rightarrow> [] | Some cs \<Rightarrow> cs) in
              if choices = [] then
                ((False, ''Gate detected; no mapping for profile='' @ profile @ ''.''), r1, s1)
              else
                (case click_by_text b page choices 2500 s1 of
                   (True, s2) \<Rightarrow>
                     (let r2 = append_action (''gate_selected_'' @ profile) r1;
                          s3 = do_sleep b 700 s2
                      in case handle_cookies b page r2 s3 of
                           (r3, s4) \<Rightarrow>
                             (case close_modals b page r3 s4 of
                                (r4, s5) \<Rightarrow>
                                  (case click_by_text b page
                                          [''Continue'', ''Enter'', ''Proceed'', ''Confirm'', ''I agree'', ''Agree'']
                                          2500 s5 of
                                     (clicked, s6) \<Rightarrow>
                                       ((True, ''Gate handled using profile='' @ profile @ ''.''),
                                        append_action ''gate_continued'' r4, s6))))
                 | (False, s2) \<Rightarrow>
                     ((False, ''Gate detected; could not find clickable option for profile=''
                              @ profile @ ''.''), r1, s2)))))"

section \<open>pdf\_harvester.py: the download trigger\<close>

text \<open>One iteration of the loop of \<open>try_download_event\<close>.  Leaving the \<open>with\<close>
  block, also by \<open>continue\<close>, waits for the download (\<open>download_value\<close>).\<close>

definition try_download_hint ::
  "'w env \<Rightarrow> page \<Rightarrow> string \<Rightarrow> string \<Rightarrow> HarvestResult \<Rightarrow> 'w state
     \<Rightarrow> string option \<times> HarvestResult \<times> 'w state" where
  "try_download_hint b page inst hint r s =
     (case perform (Expect_download page) (expect_download b page 3000) s of
        (Inl e, s1) \<Rightarrow> (None, r, s1)
      | (Inr u, s1) \<Rightarrow>
          (case click_by_text b page [hint] 1500 s1 of
             (False, s2) \<Rightarrow>
               (case perform (Download_value page) (download_value b page) s2 of
                  (d, s3) \<Rightarrow> (None, r, s3))
           | (True, s2) \<Rightarrow>
               (case perform (Download_value page) (download_value b page) s2 of
                  (Inl e, s3) \<Rightarrow> (None, r, s3)
                | (Inr dl, s3) \<Rightarrow>
                    (let out = DOWNLOAD_DIR @ ''/'' @ safe_filename inst in
                     case perform (Save_as dl out) (save_as b dl out) s3 of
                       (Inl e, s4) \<Rightarrow> (None, r, s4)
                     | (Inr u, s4) \<Rightarrow>
                         (Some out, append_action (''downloaded_via_click:'' @ hint) r, s4)))))"

fun try_download_hints ::
  "'w env \<Rightarrow> page \<Rightarrow> string \<Rightarrow> string list \<Rightarrow> HarvestResult \<Rightarrow> 'w state
     \<Rightarrow> string option \<times> HarvestResult \<times> 'w state" where
  "try_download_hints b page inst [] r s = (None, r, s)"
| "try_download_hints b page inst (hint # hints) r s =
     (case try_download_hint b page inst hint r s of
        (Some out, r1, s1) \<Rightarrow> (Some out, r1, s1)
      | (None, r1, s1) \<Rightarrow> try_download_hints b page inst hints r1 s1)"

definition try_download_event ::
  "'w env \<Rightarrow> page \<Rightarrow> string \<Rightarrow> HarvestResult \<Rightarrow> 'w state
     \<Rightarrow> string option \<times> HarvestResult \<times> 'w state" where
  "try_download_event b page inst r s =
     try_download_hints b page inst DOWNLOAD_HINTS r (mark ''try_download_event'' s)"

definition collect_candidate_links :: "'w env \<Rightarrow> page \<Rightarrow> 'w state \<Rightarrow> string list \<times> 'w state" where
  "collect_candidate_links b page s =
     (case perform (Hrefs page) (eval_hrefs b page) s of
        (Inl e, s1) \<Rightarrow> ([], s1)
      | (Inr hrefs, s1) \<Rightarrow> (candidate_links_of hrefs, s1))"

section \<open>config.py\<close>

definition COOKIE_BUTTON_TEXTS :: "string list" where
  "COOKIE_BUTTON_TEXTS = [''Accept all'', ''Accept'', ''I agree'', ''Agree'', ''OK'', ''Allow all'',
     ''Got it'', ''Accept Cookies'', ''Allow Cookies'']"

definition POPUP_CLOSE_TEXTS :: "string list" where
  "POPUP_CLOSE_TEXTS = [''X'', ''Close'', ''Dismiss'', ''No thanks'', ''Later'']"

definition POPUP_CLOSE_SELECTORS :: "string list" where
  "POPUP_CLOSE_SELECTORS = [''button[aria-label='' @ [CHR 0x27] @ ''Close'' @ [CHR 0x27] @ '']'',
     ''button[class*='' @ [CHR 0x27] @ ''close'' @ [CHR 0x27] @ '']'',
     ''.close-icon'', ''.modal-close'']"

definition PDF_LINK_KEYWORDS_PRIORITY :: "string list" where
  "PDF_LINK_KEYWORDS_PRIORITY =
     [''download full pdf'', ''download pdf'', ''view pdf'', ''full report'', ''download'']"

definition COMPLIANCE_GATE_KEYWORDS :: "string list" where
  "COMPLIANCE_GATE_KEYWORDS = [''financial intermediary'', ''professional investor'',
     ''institutional'', ''retail'', ''accredited'', ''qualified'', ''jurisdiction'', ''i certify'',
     ''investor type'', ''client type'']"

text \<open>\<open>config.BASE_DIR\<close> is the directory above the package, a fact of the
  installation; the other directories are joined to it.\<close>

definition config_LOG_DIR :: "'w env \<Rightarrow> string" where
  "config_LOG_DIR b = os_path_join (base_dir b) ''logs''"

definition config_SCREENSHOT_DIR :: "'w env \<Rightarrow> string" where
  "config_SCREENSHOT_DIR b = os_path_join (config_LOG_DIR b) ''screenshots''"

definition config_DOWNLOAD_DIR :: "'w env \<Rightarrow> string" where
  "config_DOWNLOAD_DIR b = os_path_join (base_dir b) ''downloads''"

section \<open>utils.py: screenshots\<close>

definition save_screenshot :: "'w env \<Rightarrow> page \<Rightarrow> string \<Rightarrow> 'w state \<Rightarrow> string option \<times> 'w state" where
  "save_screenshot b page name_prefix s =
     (let timestamp = now_stamp b (world s);
          filename = name_prefix @ ''_'' @ timestamp @ ''.png'';
          filepath = os_path_join (config_SCREENSHOT_DIR b) filename
      in case perform (Screenshot page filepath) (screenshot b page filepath) s of
           (Inl e, s1) \<Rightarrow> (None, s1)
         | (Inr u, s1) \<Rightarrow> (Some filepath, s1))"

section \<open>harvester.py: the class PdfHarvester\<close>

text \<open>The dictionary \<open>process_url\<close> fills.\<close>

record result_dict =
  d_start_url :: string
  d_final_url :: string
  d_status :: string
  d_notes :: string
  d_file_path :: string

text \<open>The names bound at module level in harvester.py: its imports and its class.\<close>

definition harvester_globals :: "string list" where
  "harvester_globals = [''time'', ''logging'', ''sync_playwright'', ''PlaywrightTimeoutError'',
     ''config'', ''utils'', ''PdfHarvester'']"

definition text_selector :: "string \<Rightarrow> string" where
  "text_selector t = ''text=/'' @ t @ ''/i''"

text \<open>The loop of \<open>_handle_cookies\<close>: the first click that succeeds ends it.\<close>

fun click_first_cookie_button :: "'w env \<Rightarrow> page \<Rightarrow> string list \<Rightarrow> 'w state \<Rightarrow> 'w state" where
  "click_first_cookie_button b page [] s = s"
| "click_first_cookie_button b page (t # texts) s =
     (let selector = text_selector t in
      case perform (Is_visible page selector) (is_visible b page selector) s of
        (Inl e, s1) \<Rightarrow> click_first_cookie_button b page texts s1
      | (Inr visible, s1) \<Rightarrow>
          if visible then
            (case perform (Click page selector) (click b page selector) s1 of
               (Inl e, s2) \<Rightarrow> click_first_cookie_button b page texts s2
             | (Inr u, s2) \<Rightarrow> do_sleep b 1000 s2)
          else click_first_cookie_button b page texts s1)"

definition PdfHarvester_handle_cookies :: "'w env \<Rightarrow> page \<Rightarrow> 'w state \<Rightarrow> 'w state" where
  "PdfHarvester_handle_cookies b page s =
     click_first_cookie_button b page COOKIE_BUTTON_TEXTS (mark ''_handle_cookies'' s)"

text \<open>Either loop of \<open>_handle_popups\<close>: every visible match is clicked.\<close>

fun click_each_visible :: "'w env \<Rightarrow> page \<Rightarrow> string list \<Rightarrow> 'w state \<Rightarrow> 'w state" where
  "click_each_visible b page [] s = s"
| "click_each_visible b page (selector # selectors) s =
     (case perform (Is_visible page selector) (is_visible b page selector) s of
        (Inl e, s1) \<Rightarrow> click_each_visible b page selectors s1
      | (Inr visible, s1) \<Rightarrow>
          if visible then
            (case perform (Click page selector) (click b page selector) s1 of
               (Inl e, s2) \<Rightarrow> click_each_visible b page selectors s2
             | (Inr u, s2) \<Rightarrow> click_each_visible b page selectors (do_sleep b 500 s2))
          else click_each_visible b page selectors s1)"

definition PdfHarvester_handle_popups :: "'w env \<Rightarrow> page \<Rightarrow> 'w state \<Rightarrow> 'w state" where
  "PdfHarvester_handle_popups b page s =
     click_each_visible b page POPUP_CLOSE_SELECTORS
       (click_each_visible b page (map text_selector POPUP_CLOSE_TEXTS) (mark ''_handle_popups'' s))"

text \<open>\<open>_check_compliance_gate\<close>; \<open>config.INVESTOR_PROFILE\<close> is the argument
  \<open>profile\<close>.  Reading the page content is not guarded.\<close>

definition PdfHarvester_check_compliance_gate ::
  "'w env \<Rightarrow> string \<Rightarrow> page \<Rightarrow> 'w state \<Rightarrow> (exn + string) \<times> 'w state" where
  "PdfHarvester_check_compliance_gate b profile page s0 =
     (case perform (Content page) (content b page) (mark ''_check_compliance_gate'' s0) of
        (Inl e, s1) \<Rightarrow> (Inl e, s1)
      | (Inr html, s1) \<Rightarrow>
          (let content = lower html;
               found_gate = list_ex (\<lambda>keyword. str_contains content keyword) COMPLIANCE_GATE_KEYWORDS
           in if \<not> found_gate then (Inr ''none'', s1)
              else if profile = ''unknown'' then (Inr ''manual_required'', s1)
              else
                (let profile_selector = text_selector profile in
                 case perform (Is_visible page profile_selector) (is_visible b page profile_selector) s1 of
                   (Inl e, s2) \<Rightarrow> (Inr ''manual_required'', s2)
                 | (Inr visible, s2) \<Rightarrow>
                     if visible then
                       (case perform (Click page profile_selector) (click b page profile_selector) s2 of
                          (Inl e, s3) \<Rightarrow> (Inr ''manual_required'', s3)
                        | (Inr u, s3) \<Rightarrow>
                            (case perform (Wait_for_load_state page) (wait_for_load_state b page) s3 of
                               (Inl e, s4) \<Rightarrow> (Inr ''manual_required'', s4)
                             | (Inr u, s4) \<Rightarrow> (Inr ''gate_passed'', s4)))
                     else (Inr ''manual_required'', s2))))"

text \<open>\<open>_save_download\<close>.  The name \<open>os\<close> is looked up when \<open>os.path.join\<close> is
  evaluated; a name that is not bound raises \<open>NameError\<close> inside the \<open>try\<close>, and the
  handler returns \<open>False\<close>.\<close>

definition PdfHarvester_save_download ::
  "'w env \<Rightarrow> download \<Rightarrow> string \<Rightarrow> result_dict \<Rightarrow> 'w state \<Rightarrow> bool \<times> result_dict \<times> 'w state" where
  "PdfHarvester_save_download b dl inst result s =
     (let filename = sanitize_filename inst (now_date b (world s)) in
      if ''os'' \<notin> set harvester_globals then (False, result, s)
      else
        (let save_path = os_path_join (config_DOWNLOAD_DIR b) filename in
         case perform (Save_as dl save_path) (save_as b dl save_path) s of
           (Inl e, s1) \<Rightarrow> (False, result, s1)
         | (Inr u, s1) \<Rightarrow>
             (True,
              result\<lparr>d_status := ''downloaded'', d_file_path := save_path,
                     d_notes := ''Successfully downloaded PDF.''\<rparr>, s1)))"

text \<open>The inner loop of \<open>_try_download_buttons\<close> over the elements a keyword matches:
  \<open>None\<close> when the loop ends or an exception sends the outer loop to the next keyword,
  \<open>Some\<close> of what \<open>_save_download\<close> returned otherwise.\<close>

fun click_first_visible ::
  "'w env \<Rightarrow> page \<Rightarrow> string \<Rightarrow> element list \<Rightarrow> result_dict \<Rightarrow> 'w state
     \<Rightarrow> bool option \<times> result_dict \<times> 'w state" where
  "click_first_visible b page inst [] result s = (None, result, s)"
| "click_first_visible b page inst (el # els) result s =
     (case perform (Element_is_visible el) (element_is_visible b el) s of
        (Inl e, s1) \<Rightarrow> (None, result, s1)
      | (Inr visible, s1) \<Rightarrow>
          if \<not> visible then click_first_visible b page inst els result s1
          else
            (case perform (Expect_download page) (expect_download b page 5000) s1 of
               (Inl e, s2) \<Rightarrow> (None, result, s2)
             | (Inr u, s2) \<Rightarrow>
                 (case perform (Element_click el) (element_click b el) s2 of
                    (Inl e, s3) \<Rightarrow> (None, result, s3)
                  | (Inr u, s3) \<Rightarrow>
                      (case perform (Download_value page) (download_value b page) s3 of
                         (Inl e, s4) \<Rightarrow> (None, result, s4)
                       | (Inr dl, s4) \<Rightarrow>
                           (case PdfHarvester_save_download b dl inst result s4 of
                              (saved, result1, s5) \<Rightarrow> (Some saved, result1, s5))))))"

fun try_download_keywords ::
  "'w env \<Rightarrow> page \<Rightarrow> string \<Rightarrow> string list \<Rightarrow> result_dict \<Rightarrow> 'w state
     \<Rightarrow> bool \<times> result_dict \<times> 'w state" where
  "try_download_keywords b page inst [] result s = (False, result, s)"
| "try_download_keywords b page inst (keyword # keywords) result s =
     (let selector = text_selector keyword in
      case perform (Locator_all page selector) (locator_all b page selector) s of
        (Inl e, s1) \<Rightarrow> try_download_keywords b page inst keywords result s1
      | (Inr elements, s1) \<Rightarrow>
          (case click_first_visible b page inst elements result s1 of
             (None, result1, s2) \<Rightarrow> try_download_keywords b page inst keywords result1 s2
           | (Some saved, result1, s2) \<Rightarrow> (saved, result1, s2)))"

definition PdfHarvester_try_download_buttons ::
  "'w env \<Rightarrow> page \<Rightarrow> string \<Rightarrow> result_dict \<Rightarrow> 'w state \<Rightarrow> bool \<times> result_dict \<times> 'w state" where
  "PdfHarvester_try_download_buttons b page inst result s =
     try_download_keywords b page inst PDF_LINK_KEYWORDS_PRIORITY result
       (mark ''_try_download_buttons'' s)"

text \<open>The direct download of a candidate whose href ends in \<open>.pdf\<close>: \<open>None\<close> when
  an exception is passed over, \<open>Some\<close> of what \<open>_save_download\<close> returned otherwise.\<close>

definition goto_expecting_download ::
  "'w env \<Rightarrow> page \<Rightarrow> string \<Rightarrow> string \<Rightarrow> result_dict \<Rightarrow> 'w state
     \<Rightarrow> bool option \<times> result_dict \<times> 'w state" where
  "goto_expecting_download b page inst href result s =
     (case perform (Expect_download page) (expect_download b page 10000) s of
        (Inl e, s1) \<Rightarrow> (None, result, s1)
      | (Inr u, s1) \<Rightarrow>
          (case perform (Goto page href) (goto b page href) s1 of
             (Inl e, s2) \<Rightarrow> (None, result, s2)
           | (Inr resp, s2) \<Rightarrow>
               (case perform (Download_value page) (download_value b page) s2 of
                  (Inl e, s3) \<Rightarrow> (None, result, s3)
                | (Inr dl, s3) \<Rightarrow>
                    (case PdfHarvester_save_download b dl inst result s3 of
                       (saved, result1, s4) \<Rightarrow> (Some saved, result1, s4)))))"

text \<open>The second loop of \<open>_try_fallback_links\<close>, over the retained candidates.\<close>

fun visit_candidates ::
  "'w env \<Rightarrow> page \<Rightarrow> string \<Rightarrow> (int \<times> string) list \<Rightarrow> result_dict \<Rightarrow> 'w state
     \<Rightarrow> bool \<times> result_dict \<times> 'w state" where
  "visit_candidates b page inst [] result s = (False, result, s)"
| "visit_candidates b page inst ((score, href) # cands) result s =
     (case (if endswith (lower href) ''.pdf''
            then goto_expecting_download b page inst href result s
            else (None, result, s)) of
        (Some saved, result1, s1) \<Rightarrow> (saved, result1, s1)
      | (None, result1, s1) \<Rightarrow>
          (case perform (Goto page href) (goto b page href) s1 of
             (Inl e, s2) \<Rightarrow> visit_candidates b page inst cands result1 s2
           | (Inr resp, s2) \<Rightarrow>
               (case PdfHarvester_try_download_buttons b page inst result1 s2 of
                  (True, result2, s3) \<Rightarrow> (True, result2, s3)
                | (False, result2, s3) \<Rightarrow> visit_candidates b page inst cands result2 s3)))"

text \<open>\<open>_try_fallback_links\<close>; reading the anchors is not guarded.\<close>

definition PdfHarvester_try_fallback_links ::
  "'w env \<Rightarrow> page \<Rightarrow> string \<Rightarrow> result_dict \<Rightarrow> 'w state
     \<Rightarrow> (exn + bool) \<times> result_dict \<times> 'w state" where
  "PdfHarvester_try_fallback_links b page inst result s0 =
     (case perform (Locator_all page ''a'') (anchors_all b page) (mark ''_try_fallback_links'' s0) of
        (Inl e, s1) \<Rightarrow> (Inl e, result, s1)
      | (Inr links, s1) \<Rightarrow>
          (case visit_candidates b page inst (top_candidates links) result s1 of
             (found, result1, s2) \<Rightarrow> (Inr found, result1, s2)))"

text \<open>\<open>_handle_direct_pdf_download\<close> returns \<open>False\<close>, and \<open>process_url\<close> returns
  that value in place of the dictionary.\<close>

datatype returned = Result result_dict | PyFalse

definition PdfHarvester_handle_direct_pdf_download :: "page \<Rightarrow> string \<Rightarrow> result_dict \<Rightarrow> bool" where
  "PdfHarvester_handle_direct_pdf_download page inst result = False"

text \<open>Steps 7 and 8 of \<open>process_url\<close>: the fallback links, and the report when no
  PDF was found.  A step gives what \<open>process_url\<close> returns, or the exception raised,
  with the dictionary as it stands then.\<close>

definition fallback_or_not_found ::
  "'w env \<Rightarrow> page \<Rightarrow> string \<Rightarrow> result_dict \<Rightarrow> 'w state
     \<Rightarrow> (exn + returned) \<times> result_dict \<times> 'w state" where
  "fallback_or_not_found b page inst result s =
     (case PdfHarvester_try_fallback_links b page inst result s of
        (Inl e, result1, s1) \<Rightarrow> (Inl e, result1, s1)
      | (Inr True, result1, s1) \<Rightarrow> (Inr (Result result1), result1, s1)
      | (Inr False, result1, s1) \<Rightarrow>
          (let result2 = result1\<lparr>d_status := ''not_found'',
                                   d_notes := ''No PDF found after scanning.''\<rparr> in
           case save_screenshot b page (inst @ ''_not_found'') s1 of
             (shot, s2) \<Rightarrow> (Inr (Result result2), result2, s2)))"

text \<open>What \<open>process_url\<close> does with the answer of the gate check.\<close>

definition after_gate_check ::
  "'w env \<Rightarrow> page \<Rightarrow> string \<Rightarrow> string \<Rightarrow> result_dict \<Rightarrow> 'w state
     \<Rightarrow> (exn + returned) \<times> result_dict \<times> 'w state" where
  "after_gate_check b page inst gate_status result s =
     (if gate_status = ''manual_required'' then
        (let result1 = result\<lparr>d_status := ''manual_required'',
               d_notes := ''Compliance gate detected, manual intervention required.''\<rparr> in
         case save_screenshot b page (inst @ ''_manual_required'') s of
           (shot, s1) \<Rightarrow> (Inr (Result result1), result1, s1))
      else
        (case (if gate_status = ''gate_passed''
               then PdfHarvester_try_download_buttons b page inst result s
               else (False, result, s)) of
           (True, result1, s1) \<Rightarrow> (Inr (Result result1), result1, s1)
         | (False, result1, s1) \<Rightarrow> fallback_or_not_found b page inst result1 s1))"

text \<open>Steps 2 to 6 of \<open>process_url\<close>: cookies, popups, the download buttons, then the
  gate check.\<close>

definition scan_page ::
  "'w env \<Rightarrow> string \<Rightarrow> page \<Rightarrow> string \<Rightarrow> result_dict \<Rightarrow> 'w state
     \<Rightarrow> (exn + returned) \<times> result_dict \<times> 'w state" where
  "scan_page b profile page inst result s =
     (case PdfHarvester_try_download_buttons b page inst result
             (PdfHarvester_handle_popups b page (PdfHarvester_handle_cookies b page s)) of
        (True, result1, s1) \<Rightarrow> (Inr (Result result1), result1, s1)
      | (False, result1, s1) \<Rightarrow>
          (case PdfHarvester_check_compliance_gate b profile page s1 of
             (Inl e, s2) \<Rightarrow> (Inl e, result1, s2)
           | (Inr gate_status, s2) \<Rightarrow> after_gate_check b page inst gate_status result1 s2))"

text \<open>The body of the outer \<open>try\<close> of \<open>process_url\<close>.\<close>

definition process_url_body ::
  "'w env \<Rightarrow> string \<Rightarrow> page \<Rightarrow> string \<Rightarrow> string \<Rightarrow> result_dict \<Rightarrow> 'w state
     \<Rightarrow> (exn + returned) \<times> result_dict \<times> 'w state" where
  "process_url_body b profile page inst url result s =
     (case perform (Goto page url) (goto b page url) s of
        (Inl e, s1) \<Rightarrow>
          (let result1 = result\<lparr>d_status := ''error'',
                                  d_notes := ''Failed to load page: '' @ exn_str e\<rparr> in
           case save_screenshot b page (inst @ ''_load_error'') s1 of
             (shot, s2) \<Rightarrow> (Inr (Result result1), result1, s2))
      | (Inr resp, s1) \<Rightarrow>
          (let result1 = result\<lparr>d_final_url := page_url b page (world s1)\<rparr> in
           if is_pdf_response resp then
             (Inr (if PdfHarvester_handle_direct_pdf_download page inst result1
                   then Result result1 else PyFalse), result1, s1)
           else scan_page b profile page inst result1 s1))"

text \<open>The outer \<open>try\<close> statement of \<open>process_url\<close> without its \<open>finally\<close>
  clause.\<close>

definition process_url_try ::
  "'w env \<Rightarrow> string \<Rightarrow> page \<Rightarrow> string \<Rightarrow> string \<Rightarrow> result_dict \<Rightarrow> 'w state
     \<Rightarrow> returned \<times> 'w state" where
  "process_url_try b profile page inst url result s =
     (case process_url_body b profile page inst url result s of
        (Inr v, result1, s1) \<Rightarrow> (v, s1)
      | (Inl e, result1, s1) \<Rightarrow>
          (case save_screenshot b page (inst @ ''_error'') s1 of
             (shot, s2) \<Rightarrow> (Result (result1\<lparr>d_status := ''error'', d_notes := exn_str e\<rparr>), s2)))"

text \<open>The dictionary as \<open>process_url\<close> creates it.\<close>

definition empty_dict :: "string \<Rightarrow> result_dict" where
  "empty_dict url =
     \<lparr>d_start_url = url, d_final_url = [], d_status = ''error'', d_notes = [], d_file_path = []\<rparr>"

definition process_url ::
  "'w env \<Rightarrow> string \<Rightarrow> string \<Rightarrow> string \<Rightarrow> 'w state \<Rightarrow> (exn + returned) \<times> 'w state" where
  "process_url b profile inst url s0 =
     (case perform New_page (new_page b) (mark ''process_url'' s0) of
        (Inl e, s1) \<Rightarrow> (Inl e, s1)
      | (Inr page, s1) \<Rightarrow>
          (case process_url_try b profile page inst url (empty_dict url) s1 of
             (v, s2) \<Rightarrow>
               (case perform (Close page) (close b page) s2 of
                  (Inl e, s3) \<Rightarrow> (Inl e, s3)
                | (Inr u, s3) \<Rightarrow> (Inr v, s3))))"

section \<open>pdf\_harvester.py: the PDF sniffer\<close>

definition header_or_empty :: "response \<Rightarrow> string \<Rightarrow> string" where
  "header_or_empty resp name = (case resp_headers resp name of None \<Rightarrow> [] | Some v \<Rightarrow> v)"

text \<open>\<open>on_response\<close>, as a function of the state it updates.\<close>

definition on_response :: "response \<Rightarrow> string \<Rightarrow> string" where
  "on_response resp last_pdf_url =
     (let ct = lower (header_or_empty resp ''content-type'');
          cd = lower (header_or_empty resp ''content-disposition'')
      in if str_contains ct ''application/pdf'' \<or> str_contains cd ''.pdf''
         then resp_url resp else last_pdf_url)"

text \<open>\<open>sniffer_state["last_pdf_url"]\<close> of a page: the handler applied to every
  response the page has received so far.\<close>

definition sniffed :: "'w env \<Rightarrow> page \<Rightarrow> 'w \<Rightarrow> string" where
  "sniffed b page w = fold on_response (responses b page w) []"

section \<open>pdf\_harvester.py: harvest\_one\<close>

text \<open>How a block of \<open>harvest_one\<close> ends: it falls through to the next statement (or
  the next iteration), it returns the result, or it raises.\<close>

datatype flow = Next | Returned | Raised exn

definition downloaded :: "string \<Rightarrow> string \<Rightarrow> HarvestResult \<Rightarrow> HarvestResult" where
  "downloaded out u r = r\<lparr>status := ''downloaded'', file_path := Some out, final_url := Some u\<rparr>"

text \<open>A \<open>finally\<close> clause that closes a page: an exception raised by \<open>close\<close>
  replaces whatever the block was about to do, a pending \<open>return\<close> included.\<close>

definition close_finally ::
  "'w env \<Rightarrow> page \<Rightarrow> flow \<times> HarvestResult \<times> 'w state \<Rightarrow> flow \<times> HarvestResult \<times> 'w state" where
  "close_finally b p x =
     (case x of
        (fl, r, s) \<Rightarrow>
          (case perform (Close p) (close b p) s of
             (Inl e, s1) \<Rightarrow> (Raised e, r, s1)
           | (Inr u, s1) \<Rightarrow> (fl, r, s1)))"

text \<open>The \<open>try\<close> body for a page opened on a sniffed PDF address, with its
  \<open>except Exception: pass\<close>: load the address and try the download there.\<close>

definition download_in_page ::
  "'w env \<Rightarrow> page \<Rightarrow> string \<Rightarrow> string \<Rightarrow> HarvestResult \<Rightarrow> 'w state
     \<Rightarrow> flow \<times> HarvestResult \<times> 'w state" where
  "download_in_page b p inst target r s =
     (case perform (Goto p target) (goto b p target) s of
        (Inl e, s1) \<Rightarrow> (Next, r, s1)
      | (Inr resp, s1) \<Rightarrow>
          (case try_download_event b p inst r (do_sleep b 800 s1) of
             (Some out, r1, s2) \<Rightarrow> (Returned, downloaded out (page_url b p (world s2)) r1, s2)
           | (None, r1, s2) \<Rightarrow> (Next, r1, s2)))"

text \<open>Open a sniffed PDF address in a new page, try the download there, close the page.
  The two places of \<open>harvest_one\<close> that do this are the same code.\<close>

definition open_and_download ::
  "'w env \<Rightarrow> string \<Rightarrow> string \<Rightarrow> HarvestResult \<Rightarrow> 'w state \<Rightarrow> flow \<times> HarvestResult \<times> 'w state" where
  "open_and_download b inst target r s =
     (case perform New_page (new_page b) s of
        (Inl e, s1) \<Rightarrow> (Raised e, r, s1)
      | (Inr p, s1) \<Rightarrow> close_finally b p (download_in_page b p inst target r s1))"

text \<open>Inside the \<open>try\<close> of a candidate page: follow the PDF address sniffed there, if
  any.  What that raises is caught by the \<open>except Exception: pass\<close> of the candidate.\<close>

definition follow_sniffed ::
  "'w env \<Rightarrow> string \<Rightarrow> page \<Rightarrow> HarvestResult \<Rightarrow> 'w state \<Rightarrow> flow \<times> HarvestResult \<times> 'w state" where
  "follow_sniffed b inst p2 r s =
     (if sniffed b p2 (world s) \<noteq> [] then
        (case open_and_download b inst (sniffed b p2 (world s)) r s of
           (Raised e, r1, s1) \<Rightarrow> (Next, r1, s1)
         | (fl, r1, s1) \<Rightarrow> (fl, r1, s1))
      else (Next, r, s))"

text \<open>The \<open>try\<close> body of one candidate link, with its \<open>except Exception: pass\<close>.\<close>

definition candidate_body ::
  "'w env \<Rightarrow> string \<Rightarrow> string \<Rightarrow> page \<Rightarrow> string \<Rightarrow> HarvestResult \<Rightarrow> 'w state
     \<Rightarrow> flow \<times> HarvestResult \<times> 'w state" where
  "candidate_body b profile inst p2 cand r s =
     (case perform (Goto p2 cand) (goto b p2 cand) s of
        (Inl e, s1) \<Rightarrow> (Next, r, s1)
      | (Inr resp, s1) \<Rightarrow>
          (case handle_cookies b p2 r (do_sleep b 800 s1) of
             (r1, s2) \<Rightarrow>
               (case close_modals b p2 r1 s2 of
                  (r2, s3) \<Rightarrow>
                    (case resolve_gate b profile p2 r2 s3 of
                       ((False, note2), r3, s4) \<Rightarrow> (Next, r3, s4)
                     | ((True, note2), r3, s4) \<Rightarrow>
                         (case try_download_event b p2 inst r3 s4 of
                            (Some out2, r4, s5) \<Rightarrow>
                              (Returned, downloaded out2 (page_url b p2 (world s5)) r4, s5)
                          | (None, r4, s5) \<Rightarrow> follow_sniffed b inst p2 r4 s5)))))"

text \<open>One iteration of the loop over the candidate links.\<close>

definition visit_candidate ::
  "'w env \<Rightarrow> string \<Rightarrow> string \<Rightarrow> string \<Rightarrow> HarvestResult \<Rightarrow> 'w state
     \<Rightarrow> flow \<times> HarvestResult \<times> 'w state" where
  "visit_candidate b profile inst cand r s =
     (case perform New_page (new_page b) s of
        (Inl e, s1) \<Rightarrow> (Raised e, r, s1)
      | (Inr p2, s1) \<Rightarrow> close_finally b p2 (candidate_body b profile inst p2 cand r s1))"

fun crawl_candidates ::
  "'w env \<Rightarrow> string \<Rightarrow> string \<Rightarrow> string list \<Rightarrow> HarvestResult \<Rightarrow> 'w state
     \<Rightarrow> flow \<times> HarvestResult \<times> 'w state" where
  "crawl_candidates b profile inst [] r s = (Next, r, s)"
| "crawl_candidates b profile inst (cand # cands) r s =
     (case visit_candidate b profile inst cand r s of
        (Next, r1, s1) \<Rightarrow> crawl_candidates b profile inst cands r1 s1
      | (fl, r1, s1) \<Rightarrow> (fl, r1, s1))"

text \<open>\<open>str(SCREENSHOT_DIR / f"{slugify(institution)}_tag.png")\<close>.  The file name
  starts with a slug or an underscore and holds no slash, so the path is the directory, a
  slash and the name.\<close>

definition screenshot_path :: "string \<Rightarrow> string \<Rightarrow> string" where
  "screenshot_path inst tag = SCREENSHOT_DIR @ ''/'' @ slugify inst @ ''_'' @ tag @ ''.png''"

text \<open>A screenshot inside the \<open>try\<close> of \<open>harvest_one\<close>, followed by
  \<open>return r\<close>.\<close>

definition screenshot_and_return ::
  "'w env \<Rightarrow> page \<Rightarrow> string \<Rightarrow> string \<Rightarrow> HarvestResult \<Rightarrow> 'w state
     \<Rightarrow> flow \<times> HarvestResult \<times> 'w state" where
  "screenshot_and_return b page inst tag r s =
     (case perform (Screenshot page (screenshot_path inst tag))
             (screenshot b page (screenshot_path inst tag)) s of
        (Inl e, s1) \<Rightarrow> (Raised e, r, s1)
      | (Inr u, s1) \<Rightarrow> (Returned, r, s1))"

text \<open>The crawl of the candidate links and the report when nothing was found.\<close>

definition crawl_and_report ::
  "'w env \<Rightarrow> string \<Rightarrow> page \<Rightarrow> string \<Rightarrow> HarvestResult \<Rightarrow> 'w state
     \<Rightarrow> flow \<times> HarvestResult \<times> 'w state" where
  "crawl_and_report b profile page inst r s =
     (case collect_candidate_links b page s of
        (candidates, s1) \<Rightarrow>
          (case crawl_candidates b profile inst candidates r s1 of
             (Next, r1, s2) \<Rightarrow>
               screenshot_and_return b page inst ''not_found''
                 (r1\<lparr>status := ''not_found'',
                     result_notes := Some ''No downloadable PDF detected via heuristics. Manual check needed.'',
                     final_url := Some (page_url b page (world s2))\<rparr>) s2
           | (fl, r1, s2) \<Rightarrow> (fl, r1, s2)))"

text \<open>The follow-up of a PDF address sniffed on the task's page, then the crawl.\<close>

definition follow_and_crawl ::
  "'w env \<Rightarrow> string \<Rightarrow> page \<Rightarrow> string \<Rightarrow> HarvestResult \<Rightarrow> 'w state
     \<Rightarrow> flow \<times> HarvestResult \<times> 'w state" where
  "follow_and_crawl b profile page inst r s =
     (case (if sniffed b page (world s) \<noteq> []
            then open_and_download b inst (sniffed b page (world s)) r s
            else (Next, r, s)) of
        (Next, r1, s1) \<Rightarrow> crawl_and_report b profile page inst r1 s1
      | (fl, r1, s1) \<Rightarrow> (fl, r1, s1))"

text \<open>\<open>harvest_one\<close> from the line after the gate check to the end of the
  \<open>try\<close> body.\<close>

definition search_downloads ::
  "'w env \<Rightarrow> string \<Rightarrow> page \<Rightarrow> string \<Rightarrow> HarvestResult \<Rightarrow> 'w state
     \<Rightarrow> flow \<times> HarvestResult \<times> 'w state" where
  "search_downloads b profile page inst r0 s =
     (let r = r0\<lparr>final_url := Some (page_url b page (world s))\<rparr> in
      case (if is_pdf_url (page_url b page (world s)) \<or> sniffed b page (world s) \<noteq> []
            then try_download_event b page inst r s else (None, r, s)) of
        (Some out, r1, s1) \<Rightarrow> (Returned, r1\<lparr>status := ''downloaded'', file_path := Some out\<rparr>, s1)
      | (None, r1, s1) \<Rightarrow>
          (case try_download_event b page inst r1 s1 of
             (Some out, r2, s2) \<Rightarrow> (Returned, downloaded out (page_url b page (world s2)) r2, s2)
           | (None, r2, s2) \<Rightarrow> follow_and_crawl b profile page inst r2 s2))"

definition scroll :: "'w env \<Rightarrow> page \<Rightarrow> 'w state \<Rightarrow> 'w state" where
  "scroll b page s =
     (case perform (Evaluate page ''window.scrollTo(0, document.body.scrollHeight / 2)'')
             (evaluate b page ''window.scrollTo(0, document.body.scrollHeight / 2)'') s of
        (Inl e, s1) \<Rightarrow> s1
      | (Inr u, s1) \<Rightarrow>
          (case perform (Evaluate page ''window.scrollTo(0, document.body.scrollHeight)'')
                  (evaluate b page ''window.scrollTo(0, document.body.scrollHeight)'')
                  (do_sleep b 500 s1) of
             (Inl e, s2) \<Rightarrow> s2
           | (Inr u, s2) \<Rightarrow> do_sleep b 1000 s2))"

text \<open>\<open>harvest_one\<close> from \<open>page.goto\<close> to the call of \<open>close_modals\<close>: the
  exception of a failed navigation, or the result and the state the gate check starts from.\<close>

definition load_and_clear ::
  "'w env \<Rightarrow> page \<Rightarrow> string \<Rightarrow> HarvestResult \<Rightarrow> 'w state \<Rightarrow> exn option \<times> HarvestResult \<times> 'w state" where
  "load_and_clear b page url r s =
     (case perform (Goto page url) (goto b page url) s of
        (Inl e, s1) \<Rightarrow> (Some e, r, s1)
      | (Inr resp, s1) \<Rightarrow>
          (case handle_linkedin_interstitial b page r (do_sleep b 1000 s1) of
             (r1, s2) \<Rightarrow>
               (case handle_cookies b page r1 (scroll b page s2) of
                  (r2, s3) \<Rightarrow>
                    (case close_modals b page r2 s3 of
                       (r3, s4) \<Rightarrow> (None, r3, s4)))))"

text \<open>The body of the \<open>try\<close> of \<open>harvest_one\<close>.\<close>

definition harvest_body ::
  "'w env \<Rightarrow> string \<Rightarrow> page \<Rightarrow> string \<Rightarrow> string \<Rightarrow> HarvestResult \<Rightarrow> 'w state
     \<Rightarrow> flow \<times> HarvestResult \<times> 'w state" where
  "harvest_body b profile page inst url r s =
     (case load_and_clear b page url r s of
        (Some e, r1, s1) \<Rightarrow> (Raised e, r1, s1)
      | (None, r1, s1) \<Rightarrow>
          (case resolve_gate b profile page r1 s1 of
             ((False, note), r2, s2) \<Rightarrow>
               screenshot_and_return b page inst ''manual_required''
                 (r2\<lparr>final_url := Some (page_url b page (world s2)),
                     status := ''manual_required'', result_notes := Some note\<rparr>) s2
           | ((True, note), r2, s2) \<Rightarrow> search_downloads b profile page inst r2 s2))"

text \<open>The \<open>except Exception as e\<close> clause of \<open>harvest_one\<close>; a failure of its
  screenshot is passed over.\<close>

definition report_error ::
  "'w env \<Rightarrow> page \<Rightarrow> string \<Rightarrow> exn \<Rightarrow> HarvestResult \<Rightarrow> 'w state \<Rightarrow> HarvestResult \<times> 'w state" where
  "report_error b page inst e r s =
     (case perform (Screenshot page (screenshot_path inst ''error''))
             (screenshot b page (screenshot_path inst ''error'')) s of
        (x, s1) \<Rightarrow>
          (r\<lparr>status := ''error'', result_notes := Some (exn_repr e),
             final_url := Some (page_url b page (world s))\<rparr>, s1))"

text \<open>The \<open>try\<close> statement of \<open>harvest_one\<close> without its \<open>finally\<close> clause:
  every path of the body returns or raises.\<close>

definition harvest_try ::
  "'w env \<Rightarrow> string \<Rightarrow> page \<Rightarrow> string \<Rightarrow> string \<Rightarrow> HarvestResult \<Rightarrow> 'w state
     \<Rightarrow> HarvestResult \<times> 'w state" where
  "harvest_try b profile page inst url r s =
     (case harvest_body b profile page inst url r s of
        (Raised e, r1, s1) \<Rightarrow> report_error b page inst e r1 s1
      | (fl, r1, s1) \<Rightarrow> (r1, s1))"

text \<open>\<open>harvest_one\<close>: \<open>Inl\<close> when opening or closing the task's page raises, the
  result otherwise.\<close>

definition harvest_one ::
  "'w env \<Rightarrow> string \<Rightarrow> string \<Rightarrow> string \<Rightarrow> 'w state \<Rightarrow> (exn + HarvestResult) \<times> 'w state" where
  "harvest_one b profile inst url s0 =
     (case perform New_page (new_page b) (mark ''harvest_one'' s0) of
        (Inl e, s1) \<Rightarrow> (Inl e, s1)
      | (Inr page, s1) \<Rightarrow>
          (case harvest_try b profile page inst url (new_result inst url) s1 of
             (r, s2) \<Rightarrow>
               (case perform (Close page) (close b page) s2 of
                  (Inl e, s3) \<Rightarrow> (Inl e, s3)
                | (Inr u, s3) \<Rightarrow> (Inr r, s3))))"

section \<open>Test pages\<close>

text \<open>A browser in which nothing matches and nothing fails; its world counts the pages
  opened so far, and a new page gets that number.\<close>

definition quiet :: "nat env" where
  "quiet =
     \<lparr>new_page = (\<lambda>w. (Inr w, Suc w)),
      close = (\<lambda>p w. (Inr (), w)),
      goto = (\<lambda>p u w. (Inr None, w)),
      page_url = (\<lambda>p w. ''https://example.org/outlook''),
      responses = (\<lambda>p w. []),
      inner_text = (\<lambda>p sel w. (Inr [], w)),
      role_count = (\<lambda>p rl t w. (Inr 0, w)),
      role_click = (\<lambda>p rl t ms w. (Inr (), w)),
      locator_count = (\<lambda>p sel w. (Inr 0, w)),
      locator_click = (\<lambda>p sel ms w. (Inr (), w)),
      evaluate = (\<lambda>p js w. (Inr (), w)),
      eval_hrefs = (\<lambda>p w. (Inr [], w)),
      expect_download = (\<lambda>p ms w. (Inr (), w)),
      download_value = (\<lambda>p w. (Inl (TimeoutError ''Timeout exceeded''), w)),
      save_as = (\<lambda>d path w. (Inr (), w)),
      screenshot = (\<lambda>p path w. (Inr (), w)),
      sleep = (\<lambda>ms w. w),
      is_visible = (\<lambda>p sel w. (Inr False, w)),
      click = (\<lambda>p sel w. (Inr (), w)),
      content = (\<lambda>p w. (Inr [], w)),
      wait_for_load_state = (\<lambda>p w. (Inr (), w)),
      locator_all = (\<lambda>p sel w. (Inr [], w)),
      anchors_all = (\<lambda>p w. (Inr [], w)),
      element_is_visible = (\<lambda>el w. (Inr False, w)),
      element_click = (\<lambda>el w. (Inr (), w)),
      now_date = (\<lambda>w. ''20261104''),
      now_stamp = (\<lambda>w. ''20261104_120000''),
      base_dir = ''/opt/harvester''\<rparr>"

definition start :: "nat state" where
  "start = \<lparr>world = 0, trace = []\<rparr>"

text \<open>A page whose text asks for a certification.\<close>

definition gate_page :: "nat env" where
  "gate_page = quiet
     \<lparr>inner_text := (\<lambda>p sel w. (Inr ''Please certify you are a Professional Investor'', w)),
      content := (\<lambda>p w. (Inr ''<p>Please certify you are a <b>Professional Investor</b></p>'', w))\<rparr>"

text \<open>A page whose visible text names a professional investor while the markup splits the
  two words.\<close>

definition split_markup_page :: "nat env" where
  "split_markup_page = quiet
     \<lparr>inner_text := (\<lambda>p sel w. (Inr ''Professional Investor'', w)),
      content := (\<lambda>p w. (Inr ''<p><span>Professional</span> <span>Investor</span></p>'', w))\<rparr>"

text \<open>A name that the pattern \<open>re.compile(re.escape(t), re.I)\<close> matches: the phrase
  occurs in it, whatever the case.\<close>

definition named_like :: "string \<Rightarrow> string \<Rightarrow> bool" where
  "named_like name t = str_contains (lower name) (lower t)"

text \<open>A text that the selector \<open>text=/phrase/i\<close> matches.\<close>

definition text_selector_matches :: "string \<Rightarrow> string \<Rightarrow> bool" where
  "text_selector_matches txt sel =
     (startswith sel ''text=/'' \<and> endswith sel ''/i''
      \<and> str_contains (lower txt) (lower (butlast (butlast (drop 6 sel)))))"

text \<open>A page without cookie banner and without modal: a visible body with the text
  Annual report 2026, of which Annual report is a link.\<close>

definition report_page :: "nat env" where
  "report_page = quiet
     \<lparr>inner_text := (\<lambda>p sel w. (Inr ''Annual report 2026'', w)),
      role_count := (\<lambda>p rl t w. (Inr (if rl = Link \<and> named_like ''Annual report'' t then 1 else 0), w)),
      locator_count := (\<lambda>p sel w. (Inr (if sel = ''a'' \<or> sel = ''body'' then 1 else 0), w)),
      is_visible := (\<lambda>p sel w. (Inr (sel = ''a'' \<or> sel = ''body''
                                       \<or> text_selector_matches ''Annual report 2026'' sel), w))\<rparr>"

text \<open>A gate with a button named Institutional and no button to continue.\<close>

definition institutional_page :: "nat env" where
  "institutional_page = quiet
     \<lparr>inner_text := (\<lambda>p sel w. (Inr ''Are you an Institutional Investor or a Retail Investor?'', w)),
      role_count := (\<lambda>p rl t w. (Inr (if rl = Button \<and> t = ''Institutional'' then 1 else 0), w))\<rparr>"

text \<open>A page with one visible element that matches the keyword download; clicking it starts
  a download.\<close>

definition download_button_page :: "nat env" where
  "download_button_page = quiet
     \<lparr>locator_all := (\<lambda>p sel w. (Inr (if sel = ''text=/download/i'' then [0] else []), w)),
      element_is_visible := (\<lambda>el w. (Inr True, w)),
      download_value := (\<lambda>p w. (Inr 0, w))\<rparr>"

text \<open>A page where only a link named pdf matches; clicking it starts a download.\<close>

definition pdf_only_page :: "nat env" where
  "pdf_only_page = quiet
     \<lparr>role_count := (\<lambda>p rl t w. (Inr (if rl = Link \<and> t = ''pdf'' then 1 else 0), w)),
      download_value := (\<lambda>p w. (Inr 0, w))\<rparr>"

text \<open>The page with the download element, whose content also holds gate keywords.\<close>

definition download_gate_page :: "nat env" where
  "download_gate_page = download_button_page
     \<lparr>content := (\<lambda>p w. (Inr ''<p>I certify that I am an accredited investor</p>'', w))\<rparr>"

text \<open>A page with one PDF link; on the page opened for it a link named download starts a
  download, and closing that page raises.\<close>

definition closing_fails_page :: "nat env" where
  "closing_fails_page = quiet
     \<lparr>eval_hrefs := (\<lambda>p w. (Inr [''https://example.org/files/acme-outlook-2026.pdf''], w)),
      role_count := (\<lambda>p rl t w. (Inr (if p = 1 \<and> rl = Link \<and> t = ''download'' then 1 else 0), w)),
      download_value := (\<lambda>p w. (if p = 1 then Inr 0 else Inl (TimeoutError ''Timeout 3000ms exceeded''), w)),
      close := (\<lambda>p w. (if p = 1 then Inl (Error ''Connection closed'') else Inr (), w))\<rparr>"

text \<open>A task, and the states it passes through on the page that asks for a certification.\<close>

definition acme :: string where
  "acme = ''Acme Capital''"

definition outlook_url :: string where
  "outlook_url = ''https://example.org/outlook''"

definition gate_task_loaded :: "exn option \<times> HarvestResult \<times> nat state" where
  "gate_task_loaded =
     load_and_clear gate_page 0 outlook_url (new_result acme outlook_url)
       \<lparr>world = 1, trace = [Call ''harvest_one'', New_page]\<rparr>"

definition gate_task_checked :: "(bool \<times> string) \<times> HarvestResult \<times> nat state" where
  "gate_task_checked =
     resolve_gate gate_page ''unknown'' 0 (fst (snd gate_task_loaded)) (snd (snd gate_task_loaded))"

definition gate_task_scanned :: "bool \<times> result_dict \<times> nat state" where
  "gate_task_scanned =
     PdfHarvester_try_download_buttons gate_page 0 acme
       ((empty_dict outlook_url)\<lparr>d_final_url := page_url gate_page 0 1\<rparr>)
       (PdfHarvester_handle_popups gate_page 0 (PdfHarvester_handle_cookies gate_page 0
          \<lparr>world = 1, trace = [Call ''process_url'', New_page, Goto 0 outlook_url]\<rparr>))"

definition gate_task_gate :: "(exn + string) \<times> nat state" where
  "gate_task_gate =
     PdfHarvester_check_compliance_gate gate_page ''unknown'' 0 (snd (snd gate_task_scanned))"

section \<open>Notions the claims are stated with\<close>

text \<open>The calls that click on something.\<close>

fun is_click :: "event \<Rightarrow> bool" where
  "is_click (Role_click p rl t) = True"
| "is_click (Locator_click p sel) = True"
| "is_click (Click p sel) = True"
| "is_click (Element_click el) = True"
| "is_click ev = False"

text \<open>None of the phrases names a button or a link of the page: whenever the matcher
  counts the elements of a role with such a name, the count fails or is 0.\<close>

definition no_role_match :: "'w env \<Rightarrow> page \<Rightarrow> string list \<Rightarrow> bool" where
  "no_role_match b page texts \<longleftrightarrow>
     (\<forall>t \<in> set texts. \<forall>rl w n. fst (role_count b page rl t w) = Inr n \<longrightarrow> n = 0)"

text \<open>None of the selectors locates an element of the page.\<close>

definition no_locator_match :: "'w env \<Rightarrow> page \<Rightarrow> string list \<Rightarrow> bool" where
  "no_locator_match b page sels \<longleftrightarrow>
     (\<forall>sel \<in> set sels. \<forall>w n. fst (locator_count b page sel w) = Inr n \<longrightarrow> n = 0)"

text \<open>None of the selectors has a visible match on the page.\<close>

definition none_visible :: "'w env \<Rightarrow> page \<Rightarrow> string list \<Rightarrow> bool" where
  "none_visible b page sels \<longleftrightarrow>
     (\<forall>sel \<in> set sels. \<forall>w. fst (is_visible b page sel w) \<noteq> Inr True)"

text \<open>A page on which no candidate of the obstacle handlers matches: for
  \<open>handle_cookies\<close> and \<open>close_modals\<close> the phrases of \<open>COOKIE_TEXTS\<close> and
  \<open>CLOSE_TEXTS\<close> and the selectors of close icons; for \<open>_handle_cookies\<close> and
  \<open>_handle_popups\<close> the text selectors of \<open>COOKIE_BUTTON_TEXTS\<close> and
  \<open>POPUP_CLOSE_TEXTS\<close> and the selectors of \<open>POPUP_CLOSE_SELECTORS\<close>.  Anything
  else on the page may match and be visible.\<close>

definition no_obstacle_match :: "'w env \<Rightarrow> page \<Rightarrow> bool" where
  "no_obstacle_match b page \<longleftrightarrow>
     no_role_match b page (COOKIE_TEXTS @ CLOSE_TEXTS) \<and> no_locator_match b page close_selectors"

definition no_PdfHarvester_match :: "'w env \<Rightarrow> page \<Rightarrow> bool" where
  "no_PdfHarvester_match b page \<longleftrightarrow>
     none_visible b page
       (map text_selector (COOKIE_BUTTON_TEXTS @ POPUP_CLOSE_TEXTS) @ POPUP_CLOSE_SELECTORS)"

text \<open>Running the obstacle handlers \<open>n\<close> times in a row.\<close>

fun rerun_obstacle_handlers ::
  "nat \<Rightarrow> 'w env \<Rightarrow> page \<Rightarrow> HarvestResult \<Rightarrow> 'w state \<Rightarrow> HarvestResult \<times> 'w state" where
  "rerun_obstacle_handlers 0 b page r s = (r, s)"
| "rerun_obstacle_handlers (Suc n) b page r s =
     (case handle_cookies b page r s of
        (r1, s1) \<Rightarrow>
          (case close_modals b page r1 s1 of
             (r2, s2) \<Rightarrow> rerun_obstacle_handlers n b page r2 s2))"

fun rerun_PdfHarvester_handlers :: "nat \<Rightarrow> 'w env \<Rightarrow> page \<Rightarrow> 'w state \<Rightarrow> 'w state" where
  "rerun_PdfHarvester_handlers 0 b page s = s"
| "rerun_PdfHarvester_handlers (Suc n) b page s =
     rerun_PdfHarvester_handlers n b page
       (PdfHarvester_handle_popups b page (PdfHarvester_handle_cookies b page s))"

text \<open>The clicks made so far.\<close>

definition clicks :: "'w state \<Rightarrow> event list" where
  "clicks s = filter is_click (trace s)"

text \<open>The download attempts made so far: the calls of \<open>page.expect_download\<close>.\<close>

fun is_expect_download :: "event \<Rightarrow> bool" where
  "is_expect_download (Expect_download p) = True"
| "is_expect_download ev = False"

definition attempts :: "'w state \<Rightarrow> nat" where
  "attempts s = length (filter is_expect_download (trace s))"

text \<open>The invariant of a finalized result: one of the four statuses, and a file path, not
  empty, exactly when the status is \<open>downloaded\<close>.\<close>

definition consistent :: "HarvestResult \<Rightarrow> bool" where
  "consistent r \<longleftrightarrow>
     status r \<in> {''downloaded'', ''manual_required'', ''not_found'', ''error''}
     \<and> (file_path r \<noteq> None \<longleftrightarrow> status r = ''downloaded'')
     \<and> file_path r \<noteq> Some []"

text \<open>The same for the dictionary of harvester.py, where no file path is the empty string.\<close>

definition dict_consistent :: "result_dict \<Rightarrow> bool" where
  "dict_consistent d \<longleftrightarrow>
     d_status d \<in> {''downloaded'', ''manual_required'', ''not_found'', ''error''}
     \<and> (d_file_path d \<noteq> [] \<longleftrightarrow> d_status d = ''downloaded'')"

text \<open>A browser in which closing a page never raises.\<close>

definition closes_ok :: "'w env \<Rightarrow> bool" where
  "closes_ok b \<longleftrightarrow> (\<forall>p w. fst (close b p w) = Inr ())"

text \<open>The status and the file path are those of an earlier result.\<close>

definition kept :: "HarvestResult \<Rightarrow> HarvestResult \<Rightarrow> bool" where
  "kept r0 r \<longleftrightarrow> status r = status r0 \<and> file_path r = file_path r0"

text \<open>What a block of the fallback search leaves: a recorded download when it returns, the
  status and file path it started with otherwise.\<close>

definition good :: "HarvestResult \<Rightarrow> flow \<times> HarvestResult \<times> 'w state \<Rightarrow> bool" where
  "good r0 x \<longleftrightarrow>
     (case fst x of
        Returned \<Rightarrow> status (fst (snd x)) = ''downloaded''
                     \<and> (\<exists>out. file_path (fst (snd x)) = Some out \<and> out \<noteq> [])
      | Next \<Rightarrow> kept r0 (fst (snd x))
      | Raised e \<Rightarrow> kept r0 (fst (snd x)))"

text \<open>What the body of the \<open>try\<close> of \<open>harvest_one\<close> leaves: a result that
  satisfies the invariant when it returns, no file path when it raises.\<close>

definition settled :: "flow \<times> HarvestResult \<times> 'w state \<Rightarrow> bool" where
  "settled x \<longleftrightarrow>
     (case fst x of
        Returned \<Rightarrow> consistent (fst (snd x))
      | Next \<Rightarrow> False
      | Raised e \<Rightarrow> file_path (fst (snd x)) = None)"

text \<open>What a step of \<open>process_url\<close> leaves: no file path, a status other than
  \<open>downloaded\<close>, and the dictionary, \<open>False\<close> or an exception as outcome.\<close>

definition dict_plain :: "(exn + returned) \<times> result_dict \<times> 'w state \<Rightarrow> bool" where
  "dict_plain x \<longleftrightarrow>
     d_file_path (fst (snd x)) = []
     \<and> d_status (fst (snd x)) \<in> {''manual_required'', ''not_found'', ''error''}
     \<and> (fst x = Inr (Result (fst (snd x))) \<or> fst x = Inr PyFalse \<or> (\<exists>e. fst x = Inl e))"

section \<open>Properties of the string functions\<close>

lemma split_char_nonempty: "split_char sep s \<noteq> []"
  by (induction s) (auto split: list.splits)

lemma hd_split_char: "hd (split_char sep s) = takeWhile (\<lambda>c. c \<noteq> sep) s"
  by (induction s) (auto split: list.splits simp: split_char_nonempty)

lemma takeWhile_append_sep:
  "takeWhile (\<lambda>c. c \<noteq> sep) (base @ sep # query) = takeWhile (\<lambda>c. c \<noteq> sep) base"
  by (induction base) auto

lemma hd_split_char_append_sep:
  "hd (split_char sep (base @ sep # query)) = hd (split_char sep base)"
  by (simp only: hd_split_char takeWhile_append_sep)

section \<open>The direct PDF check\<close>

text \<open>
  C8 (amended).  \<open>is_pdf_url\<close> of pdf\_harvester.py tests the text before the first
  question mark, lowercased, for the suffix \<open>.pdf\<close>: for every URL \<open>base?query\<close> it
  answers as for \<open>base\<close> alone, and its answer does not depend on the case of the URL.
\<close>

theorem is_pdf_url_strips_query:
  "is_pdf_url (base @ ''?'' @ query) = is_pdf_url base
   \<and> is_pdf_url url = endswith (lower (takeWhile (\<lambda>c. c \<noteq> CHR ''?'') url)) ''.pdf''"
proof -
  have "hd (split_char CHR ''?'' (base @ ''?'' @ query)) = hd (split_char CHR ''?'' base)"
    using hd_split_char_append_sep [of "CHR ''?''" base query] by simp
  then show ?thesis
    by (simp add: is_pdf_url_def hd_split_char)
qed

text \<open>
  \<open>_is_pdf_response\<close> of harvester.py keeps the query string: with a content type
  that is not PDF, the URL \<open>.../a.pdf\<close> is taken for a PDF and \<open>.../a.pdf?v=1\<close>
  is not.
\<close>

theorem is_pdf_response_keeps_query:
  "is_pdf_response (Some \<lparr>resp_headers = (\<lambda>h. None), resp_url = ''https://example.org/a.pdf''\<rparr>)
   \<and> \<not> is_pdf_response
         (Some \<lparr>resp_headers = (\<lambda>h. None), resp_url = ''https://example.org/a.pdf?v=1''\<rparr>)"
  by code_simp

section \<open>The either/or candidate-link collector\<close>

lemma fold_keys:
  "fold (\<lambda>x keys. if x \<in> set keys then keys else keys @ [x]) xs acc
     = acc @ first_seen (filter (\<lambda>x. x \<notin> set acc) xs)"
proof (induction xs arbitrary: acc)
  case Nil
  then show ?case by simp
next
  case (Cons x xs)
  show ?case
  proof (cases "x \<in> set acc")
    case True
    then show ?thesis using Cons.IH [of acc] by simp
  next
    case False
    have "removeAll x (filter (\<lambda>y. y \<notin> set acc) xs) = filter (\<lambda>y. y \<notin> set (acc @ [x])) xs"
      by (induction xs) auto
    then show ?thesis using False Cons.IH [of "acc @ [x]"] by simp
  qed
qed

lemma dict_fromkeys_first_seen: "dict_fromkeys xs = first_seen xs"
  by (simp add: dict_fromkeys_def fold_keys)

lemma set_first_seen: "set (first_seen xs) = set xs"
  by (induction xs rule: first_seen.induct) auto

lemma distinct_first_seen: "distinct (first_seen xs)"
  by (induction xs rule: first_seen.induct) (auto simp: set_first_seen)

lemma subseq_first_seen: "subseq (first_seen xs) xs"
proof (induction xs rule: first_seen.induct)
  case 1
  then show ?case by simp
next
  case (2 x xs)
  have "subseq (removeAll x xs) xs"
    by (simp add: removeAll_filter_not_eq)
  with 2 show ?case
    using subseq_order.order_trans by auto
qed

text \<open>Hrefs met later never move or remove what the earlier ones gave.\<close>

lemma first_seen_append:
  "first_seen (xs @ ys) = first_seen xs @ first_seen (filter (\<lambda>y. y \<notin> set xs) ys)"
proof -
  have "first_seen (xs @ ys) = fold (\<lambda>x keys. if x \<in> set keys then keys else keys @ [x]) ys (first_seen xs)"
    using dict_fromkeys_first_seen [of "xs @ ys"] dict_fromkeys_first_seen [of xs]
    by (simp add: dict_fromkeys_def)
  then show ?thesis
    by (simp add: fold_keys set_first_seen)
qed

text \<open>
  C7 (amended).  Given the hrefs of a page's anchors, \<open>collect_candidate_links\<close>
  returns, if some href is a PDF address, the PDF hrefs only, and otherwise the hrefs
  whose URL, in lower case, holds one of the keywords; in both cases deduplicated keeping
  first-seen order and cut to the first 10.  A PDF address is what \<open>is_pdf_url\<close>
  accepts: the href ends in \<open>.pdf\<close> once its query string is removed and it is put
  in lower case.
\<close>

theorem candidate_links_either_or:
  "candidate_links_of hrefs =
     (if list_ex is_pdf_url hrefs
      then take 10 (first_seen (filter is_pdf_url hrefs))
      else take 10 (first_seen (filter url_has_keyword hrefs)))
   \<and> distinct (candidate_links_of hrefs)
   \<and> subseq (candidate_links_of hrefs) hrefs
   \<and> length (candidate_links_of hrefs) \<le> 10"
proof -
  have pdfs: "(filter is_pdf_url hrefs \<noteq> []) = list_ex is_pdf_url hrefs"
    by (simp add: filter_empty_conv list_ex_iff)
  have eq: "candidate_links_of hrefs =
     (if list_ex is_pdf_url hrefs
      then take 10 (first_seen (filter is_pdf_url hrefs))
      else take 10 (first_seen (filter url_has_keyword hrefs)))"
    unfolding candidate_links_of_def Let_def pdfs dict_fromkeys_first_seen MAX_CANDIDATE_LINKS_def
    by (simp add: url_has_keyword_def [abs_def])
  have sub: "subseq (take 10 (first_seen (filter P hrefs))) hrefs" for P
  proof -
    have "subseq (take 10 (first_seen (filter P hrefs))) (first_seen (filter P hrefs))"
      by (metis append_take_drop_id list_emb_prefix subseq_order.order_refl)
    also have "subseq (first_seen (filter P hrefs)) (filter P hrefs)"
      by (rule subseq_first_seen)
    also have "subseq (filter P hrefs) hrefs"
      by simp
    finally show ?thesis .
  qed
  show ?thesis
    unfolding eq using sub by (simp add: distinct_first_seen)
qed

theorem candidate_links_either_or_witness:
  "candidate_links_of [''/a.pdf'', ''/b.html'', ''/report-download'', ''/a.pdf''] = [''/a.pdf'']
   \<and> candidate_links_of [''/b.html'', ''/report-download'', ''/Outlook'', ''/report-download'']
       = [''/report-download'', ''/Outlook'']"
proof -
  have a: "list_ex is_pdf_url [''/a.pdf'', ''/b.html'', ''/report-download'', ''/a.pdf'']"
    by code_simp
  have b: "take 10 (first_seen (filter is_pdf_url [''/a.pdf'', ''/b.html'', ''/report-download'', ''/a.pdf'']))
            = [''/a.pdf'']"
    by code_simp
  have c: "\<not> list_ex is_pdf_url [''/b.html'', ''/report-download'', ''/Outlook'', ''/report-download'']"
    by code_simp
  have d: "take 10 (first_seen (filter url_has_keyword
              [''/b.html'', ''/report-download'', ''/Outlook'', ''/report-download'']))
            = [''/report-download'', ''/Outlook'']"
    by code_simp
  show ?thesis
    using candidate_links_either_or [of "[''/a.pdf'', ''/b.html'', ''/report-download'', ''/a.pdf'']"]
      candidate_links_either_or [of "[''/b.html'', ''/report-download'', ''/Outlook'', ''/report-download'']"]
    unfolding if_P [OF a] if_not_P [OF c] b d by blast
qed

text \<open>
  The first pass is not the test that the href ends in \<open>.pdf\<close>.  Of the two hrefs
  below none ends in \<open>.pdf\<close> and both hold a keyword, so that the collector worded
  with that test keeps both; \<open>collect_candidate_links\<close> takes the first for a PDF
  address, because of its query string, and returns it alone.
\<close>

theorem candidate_links_query_counterexample:
  "\<not> list_ex ends_in_pdf [''/a.pdf?v=1'', ''/report'']
   \<and> either_or_links [''/a.pdf?v=1'', ''/report''] = [''/a.pdf?v=1'', ''/report'']
   \<and> candidate_links_of [''/a.pdf?v=1'', ''/report''] = [''/a.pdf?v=1'']"
  by code_simp

section \<open>The scored candidate links\<close>

lemma text_has_hint_nonempty:
  "(case t0 of
      None \<Rightarrow> False
    | Some t \<Rightarrow> t \<noteq> [] \<and> list_ex (\<lambda>k. str_contains (lower t) k) FALLBACK_LINK_KEYWORDS)
   = text_has_hint t0"
  by (cases t0) (auto simp: text_has_hint_def FALLBACK_LINK_KEYWORDS_def lower_def)

lemma link_score_sum:
  "link_score href t0 =
     (if endswith (lower href) ''.pdf'' then 10 else 0)
     + (if str_contains (lower href) ''pdf'' then 5 else 0)
     + (if text_has_hint t0 then 3 else 0)"
  unfolding link_score_def text_has_hint_nonempty by (simp add: Let_def)

lemma scan_links_acc:
  "scan_links links candidates = candidates @ List.map_filter kept_anchor links"
proof (induction links arbitrary: candidates)
  case Nil
  then show ?case by simp
next
  case (Cons link links)
  show ?case
    by (cases "get_attribute_href link"; cases "text_content link")
       (auto simp: Cons.IH kept_anchor_def Let_def split: option.splits)
qed

lemma ranked_sorted:
  "sorted_wrt (\<lambda>a b. fst a \<ge> fst b) (sort_reverse_by_score cs)"
proof -
  have "sorted (map (\<lambda>c. - fst c) (sort_key (\<lambda>c. - fst c) cs))"
    by (rule sorted_sort_key)
  then show ?thesis
    by (simp add: sort_reverse_by_score_def sorted_map)
qed

lemma ranked_stable:
  "filter (\<lambda>c. fst c = s) (sort_reverse_by_score cs) = filter (\<lambda>c. fst c = s) cs"
proof -
  have "filter (\<lambda>c. - fst c = - s) (sort_key (\<lambda>c. - fst c) cs) = filter (\<lambda>c. - fst c = - s) cs"
    by (rule sort_key_stable)
  then show ?thesis by (simp add: sort_reverse_by_score_def)
qed

text \<open>
  C4.  In \<open>_try_fallback_links\<close> the score of an anchor is 10 if the lowercased href ends
  in \<open>.pdf\<close>, plus 5 if it holds \<open>pdf\<close>, plus 3 if the lowercased link text holds one of
  the fallback keywords; the anchors kept are those of positive score, in document order;
  the ranking is descending by score, anchors of equal score staying in document order;
  the first 10 of the ranking are retained.
\<close>

theorem scored_candidates_ranked:
  "link_score href t0 =
     (if endswith (lower href) ''.pdf'' then 10 else 0)
     + (if str_contains (lower href) ''pdf'' then 5 else 0)
     + (if text_has_hint t0 then 3 else 0)
   \<and> scan_links links [] = List.map_filter kept_anchor links
   \<and> sorted_wrt (\<lambda>a b. fst a \<ge> fst b) (sort_reverse_by_score (scan_links links []))
   \<and> (\<forall>s. filter (\<lambda>c. fst c = s) (sort_reverse_by_score (scan_links links []))
           = filter (\<lambda>c. fst c = s) (scan_links links []))
   \<and> top_candidates links = take 10 (sort_reverse_by_score (scan_links links []))
   \<and> length (top_candidates links) \<le> 10"
  using link_score_sum [of href t0] scan_links_acc [of links "[]"]
    ranked_sorted [of "scan_links links []"] ranked_stable [of _ "scan_links links []"]
  by (simp add: top_candidates_def)

section \<open>File names\<close>

lemma set_re_sub_runs: "set (re_sub_runs P rep s) \<subseteq> set rep \<union> {c \<in> set s. \<not> P c}"
proof (induction P rep s rule: re_sub_runs.induct)
  case (1 P rep)
  then show ?case by simp
next
  case (2 P rep c cs)
  have "set (dropWhile P cs) \<subseteq> set cs" by (auto dest: set_dropWhileD)
  with 2 show ?case by (cases "P c") auto
qed

lemma set_strip_chars: "set (strip_chars P s) \<subseteq> set s"
  by (auto simp: strip_chars_def dest!: set_dropWhileD)

lemma slugify_chars: "c \<in> set (slugify s) \<Longrightarrow> is_lower_alnum c \<or> c = CHR ''_''"
proof -
  assume a: "c \<in> set (slugify s)"
  let ?s1 = "re_sub_runs (\<lambda>c. \<not> is_lower_alnum c) ''_'' (strip (lower s))"
  from a have "c \<in> set (re_sub_runs (\<lambda>c. c = CHR ''_'') ''_'' ?s1)"
    using set_strip_chars by (fastforce simp: slugify_def Let_def)
  then have "c = CHR ''_'' \<or> c \<in> set ?s1"
    using set_re_sub_runs [of "\<lambda>c. c = CHR ''_''" "''_''" ?s1] by auto
  then show ?thesis
    using set_re_sub_runs [of "\<lambda>c. \<not> is_lower_alnum c" "''_''" "strip (lower s)"] by auto
qed

lemma join_split_char: "join [sep] (split_char sep s) = s"
proof (induction s)
  case Nil
  then show ?case by simp
next
  case (Cons c cs)
  obtain w ws where sp: "split_char sep cs = w # ws"
    using split_char_nonempty [of sep cs] by (cases "split_char sep cs") auto
  show ?case
  proof (cases "c = sep")
    case True
    with Cons sp show ?thesis by simp
  next
    case False
    with Cons sp show ?thesis by (cases ws) auto
  qed
qed

lemma prefix_join_take: "prefix (join sep (take n ws)) (join sep ws)"
proof (induction sep ws arbitrary: n rule: join.induct)
  case (1 sep)
  then show ?case by simp
next
  case (2 sep w)
  then show ?case by (cases n) auto
next
  case (3 sep w v ws)
  show ?case
  proof (cases n)
    case 0
    then show ?thesis by simp
  next
    case (Suc m)
    note n = this
    show ?thesis
    proof (cases m)
      case 0
      with n show ?thesis by simp
    next
      case (Suc k)
      with n 3 [of "Suc k"] show ?thesis by simp
    qed
  qed
qed

lemma split_char_no_sep: "w \<in> set (split_char sep s) \<Longrightarrow> sep \<notin> set w"
  by (induction s arbitrary: w) (auto split: if_splits list.splits)

lemma short_prefix_of_slug: "prefix (short_slug inst) (slugify inst)"
  using prefix_join_take [of "''_''" 2 "split_char CHR ''_'' (slugify inst)"]
    join_split_char [of "CHR ''_''" "slugify inst"]
  by (simp add: short_slug_def)

lemma short_one_underscore:
  "length (filter (\<lambda>c. c = CHR ''_'') (short_slug inst)) \<le> 1"
proof -
  let ?slug = "slugify inst"
  obtain w ws where sp: "split_char CHR ''_'' ?slug = w # ws"
    using split_char_nonempty [of "CHR ''_''" ?slug] by (cases "split_char CHR ''_'' ?slug") auto
  have no: "\<And>v. v \<in> set (w # ws) \<Longrightarrow> filter (\<lambda>c. c = CHR ''_'') v = []"
    using split_char_no_sep [of _ "CHR ''_''" ?slug] sp by (auto simp: filter_empty_conv)
  show ?thesis
  proof (cases ws)
    case Nil
    with sp no show ?thesis by (simp add: short_slug_def)
  next
    case (Cons v vs)
    with sp no [of w] no [of v] show ?thesis by (simp add: short_slug_def)
  qed
qed

lemma short_slug_chars: "set (short_slug inst) \<subseteq> {c. is_lower_alnum c \<or> c = CHR ''_''}"
  using set_mono_prefix [OF short_prefix_of_slug [of inst]] slugify_chars [of _ inst]
  by auto

text \<open>
  C6 (amended).  \<open>safe_filename\<close> of pdf\_harvester.py is the first two words of the
  institution's slug (lowercase letters, digits and at most one underscore, a prefix of the
  whole slug) followed by the fixed suffix \<open>_2026.pdf\<close>, with no date.
  \<open>sanitize_filename\<close> of utils.py is the whole inst string without the
  characters \<open>\/*?:"<>|\<close> and with every space replaced by an underscore, not cut
  short, followed by \<open>_2026_Outlook_\<close>, the current date and \<open>.pdf\<close>.
\<close>

theorem filename_derivation:
  "safe_filename inst = short_slug inst @ ''_2026.pdf''
   \<and> prefix (short_slug inst) (slugify inst)
   \<and> set (short_slug inst) \<subseteq> {c. is_lower_alnum c \<or> c = CHR ''_''}
   \<and> length (filter (\<lambda>c. c = CHR ''_'') (short_slug inst)) \<le> 1
   \<and> sanitize_filename inst now =
        map (\<lambda>c. if c = CHR '' '' then CHR ''_'' else c)
            (filter (\<lambda>c. \<not> invalid_filename_char c) inst)
        @ ''_2026_Outlook_'' @ now @ ''.pdf''"
  using short_prefix_of_slug [of inst] short_slug_chars [of inst]
    short_one_underscore [of inst]
  by (simp add: safe_filename_def short_slug_def sanitize_filename_def replace_char_def
      re_sub_each_empty_def Let_def)

text \<open>
  The name \<open>safe_filename\<close> gives holds no date, and the name \<open>sanitize_filename\<close>
  gives keeps all four words of the institution.
\<close>

theorem filename_derivation_counterexample:
  "safe_filename ''State Street Global Advisors'' = ''state_street_2026.pdf''
   \<and> \<not> str_contains (safe_filename ''State Street Global Advisors'') ''20261104''
   \<and> sanitize_filename ''State Street Global Advisors'' ''20261104''
       = ''State_Street_Global_Advisors_2026_Outlook_20261104.pdf''"
  by code_simp

section \<open>Traces\<close>

lemma perform_eq:
  "perform ev op s = (fst (op (world s)), \<lparr>world = snd (op (world s)), trace = trace s @ [ev]\<rparr>)"
  by (simp add: perform_def split: prod.splits)

lemma trace_mark: "trace (mark f s) = trace s @ [Call f]" and world_mark: "world (mark f s) = world s"
  by (simp_all add: mark_def)

lemma trace_do_sleep: "trace (do_sleep b ms s) = trace s @ [Sleep ms]"
  and world_do_sleep: "world (do_sleep b ms s) = sleep b ms (world s)"
  by (simp_all add: do_sleep_def perform_eq)

section \<open>The gate check\<close>

text \<open>
  C2 (amended).  Under the investor profile \<open>unknown\<close>: when the visible text of the
  body holds a gate keyword, \<open>resolve_gate\<close> answers that manual intervention is
  required; when the content of the page, its markup, holds a gate keyword,
  \<open>_check_compliance_gate\<close> answers \<open>manual_required\<close>.  In both cases the only
  call into the browser is the one that reads the page: no click is attempted.
\<close>

theorem gate_unknown_profile_manual:
  "(inner_text b page ''body'' (world s) = (Inr txt, w) \<and> contains_any txt GATE_HINTS
      \<longrightarrow> resolve_gate b ''unknown'' page r s =
            ((False, ''Gate detected; profile=unknown => manual required.''),
             append_action ''gate_detected'' r,
             \<lparr>world = w, trace = trace s @ [Call ''resolve_gate'', Inner_text page]\<rparr>))
   \<and> (content b page (world s) = (Inr html, w)
        \<and> list_ex (\<lambda>keyword. str_contains (lower html) keyword) COMPLIANCE_GATE_KEYWORDS
      \<longrightarrow> PdfHarvester_check_compliance_gate b ''unknown'' page s =
            (Inr ''manual_required'',
             \<lparr>world = w, trace = trace s @ [Call ''_check_compliance_gate'', Content page]\<rparr>))"
  by (simp add: resolve_gate_def detect_gate_def body_text_def perform_eq trace_mark world_mark
      PdfHarvester_check_compliance_gate_def Let_def)

theorem gate_unknown_profile_manual_witness:
  "resolve_gate gate_page ''unknown'' 0 (new_result ''Acme Capital'' ''https://example.org/outlook'') start =
     ((False, ''Gate detected; profile=unknown => manual required.''),
      append_action ''gate_detected'' (new_result ''Acme Capital'' ''https://example.org/outlook''),
      \<lparr>world = 0, trace = [Call ''resolve_gate'', Inner_text 0]\<rparr>)
   \<and> PdfHarvester_check_compliance_gate gate_page ''unknown'' 0 start =
       (Inr ''manual_required'', \<lparr>world = 0, trace = [Call ''_check_compliance_gate'', Content 0]\<rparr>)"
proof -
  have a: "inner_text gate_page 0 ''body'' (world start)
             = (Inr ''Please certify you are a Professional Investor'', 0)"
    by (simp add: gate_page_def quiet_def start_def)
  have b: "contains_any ''Please certify you are a Professional Investor'' GATE_HINTS"
    by code_simp
  have c: "content gate_page 0 (world start)
             = (Inr ''<p>Please certify you are a <b>Professional Investor</b></p>'', 0)"
    by (simp add: gate_page_def quiet_def start_def)
  have d: "list_ex (\<lambda>keyword. str_contains
              (lower ''<p>Please certify you are a <b>Professional Investor</b></p>'') keyword)
             COMPLIANCE_GATE_KEYWORDS"
    by code_simp
  have t: "trace start = []"
    by (simp add: start_def)
  show ?thesis
    using gate_unknown_profile_manual [of gate_page 0 start
        "''Please certify you are a Professional Investor''" 0
        "new_result ''Acme Capital'' ''https://example.org/outlook''"
        "''<p>Please certify you are a <b>Professional Investor</b></p>''"] a b c d t
    by simp
qed

text \<open>
  \<open>_check_compliance_gate\<close> does not read the visible text.  On a page whose visible
  text is Professional Investor, a gate keyword of both modules, while the markup puts
  tags between the two words, it answers \<open>none\<close> under the profile \<open>unknown\<close>;
  \<open>resolve_gate\<close> on the same page answers that manual intervention is required.
\<close>

theorem check_compliance_gate_reads_markup:
  "inner_text split_markup_page 0 ''body'' (world start) = (Inr ''Professional Investor'', 0)
   \<and> list_ex (\<lambda>keyword. str_contains (lower ''Professional Investor'') keyword)
        COMPLIANCE_GATE_KEYWORDS
   \<and> contains_any ''Professional Investor'' GATE_HINTS
   \<and> PdfHarvester_check_compliance_gate split_markup_page ''unknown'' 0 start =
       (Inr ''none'', \<lparr>world = 0, trace = [Call ''_check_compliance_gate'', Content 0]\<rparr>)
   \<and> fst (resolve_gate split_markup_page ''unknown'' 0
            (new_result ''Acme Capital'' ''https://example.org/outlook'') start) =
       (False, ''Gate detected; profile=unknown => manual required.'')"
  by code_simp

lemma clicks_mark [simp]: "clicks (mark f s) = clicks s"
  by (simp add: clicks_def mark_def)

lemma clicks_do_sleep [simp]: "clicks (do_sleep b ms s) = clicks s"
  by (simp add: clicks_def trace_do_sleep)

section \<open>The obstacle handlers on a page without matches\<close>

lemma no_role_match_Cons:
  "no_role_match b page (t # texts) \<longleftrightarrow>
     (\<forall>rl w n. fst (role_count b page rl t w) = Inr n \<longrightarrow> n = 0) \<and> no_role_match b page texts"
  by (auto simp: no_role_match_def)

lemma no_role_match_append:
  "no_role_match b page (xs @ ys) \<longleftrightarrow> no_role_match b page xs \<and> no_role_match b page ys"
  by (auto simp: no_role_match_def)

lemma no_locator_match_Cons:
  "no_locator_match b page (sel # sels) \<longleftrightarrow>
     (\<forall>w n. fst (locator_count b page sel w) = Inr n \<longrightarrow> n = 0) \<and> no_locator_match b page sels"
  by (auto simp: no_locator_match_def)

lemma none_visible_Cons:
  "none_visible b page (sel # sels) \<longleftrightarrow>
     (\<forall>w. fst (is_visible b page sel w) \<noteq> Inr True) \<and> none_visible b page sels"
  by (auto simp: none_visible_def)

lemma none_visible_append:
  "none_visible b page (xs @ ys) \<longleftrightarrow> none_visible b page xs \<and> none_visible b page ys"
  by (auto simp: none_visible_def)

lemma click_role_no_match:
  assumes "\<forall>w n. fst (role_count b page rl t w) = Inr n \<longrightarrow> n = 0"
  shows "fst (click_role b page rl t ms s) = False \<and> clicks (snd (click_role b page rl t ms s)) = clicks s"
proof (cases "fst (role_count b page rl t (world s))")
  case (Inl e)
  then show ?thesis
    by (simp add: click_role_def perform_eq clicks_def)
next
  case (Inr n)
  with assms have "n = 0"
    by blast
  with Inr show ?thesis
    by (simp add: click_role_def perform_eq clicks_def)
qed

lemma click_by_text_no_match:
  assumes "no_role_match b page texts"
  shows "fst (click_by_text b page texts ms s) = False
         \<and> clicks (snd (click_by_text b page texts ms s)) = clicks s"
  using assms
proof (induction texts arbitrary: s)
  case Nil
  then show ?case by simp
next
  case (Cons t texts)
  have tb: "\<forall>w n. fst (role_count b page Button t w) = Inr n \<longrightarrow> n = 0"
    and tl: "\<forall>w n. fst (role_count b page Link t w) = Inr n \<longrightarrow> n = 0"
    and rest: "no_role_match b page texts"
    using Cons.prems by (simp_all add: no_role_match_Cons)
  obtain s1 where b1: "click_role b page Button t ms s = (False, s1)" and c1: "clicks s1 = clicks s"
    using click_role_no_match [OF tb, of ms s]
    by (cases "click_role b page Button t ms s") auto
  obtain s2 where b2: "click_role b page Link t ms s1 = (False, s2)" and c2: "clicks s2 = clicks s1"
    using click_role_no_match [OF tl, of ms s1]
    by (cases "click_role b page Link t ms s1") auto
  show ?case
    using Cons.IH [OF rest, of s2] b1 b2 c1 c2 by simp
qed

lemma click_close_icons_no_match:
  assumes "no_locator_match b page sels"
  shows "fst (click_close_icons b page sels r s) = r
         \<and> clicks (snd (click_close_icons b page sels r s)) = clicks s"
  using assms
proof (induction sels arbitrary: s)
  case Nil
  then show ?case by simp
next
  case (Cons sel sels)
  have z: "\<forall>w n. fst (locator_count b page sel w) = Inr n \<longrightarrow> n = 0"
    and rest: "no_locator_match b page sels"
    using Cons.prems by (simp_all add: no_locator_match_Cons)
  let ?s1 = "\<lparr>world = snd (locator_count b page sel (world s)), trace = trace s @ [Locator_count page sel]\<rparr>"
  have c: "clicks ?s1 = clicks s"
    by (simp add: clicks_def)
  show ?case
  proof (cases "fst (locator_count b page sel (world s))")
    case (Inl e)
    then show ?thesis
      using Cons.IH [OF rest, of ?s1] c by (simp add: perform_eq)
  next
    case (Inr n)
    with z have "n = 0"
      by blast
    with Inr show ?thesis
      using Cons.IH [OF rest, of ?s1] c by (simp add: perform_eq)
  qed
qed

lemma handle_cookies_no_match:
  assumes "no_role_match b page COOKIE_TEXTS"
  shows "fst (handle_cookies b page r s) = r \<and> clicks (snd (handle_cookies b page r s)) = clicks s"
  using click_by_text_no_match [OF assms, of 1500 "mark ''handle_cookies'' s"]
  by (cases "click_by_text b page COOKIE_TEXTS 1500 (mark ''handle_cookies'' s)")
     (auto simp: handle_cookies_def)

lemma close_modals_no_match:
  assumes "no_role_match b page CLOSE_TEXTS" and "no_locator_match b page close_selectors"
  shows "fst (close_modals b page r s) = r \<and> clicks (snd (close_modals b page r s)) = clicks s"
proof -
  obtain s1 where a: "click_by_text b page CLOSE_TEXTS 1500 (mark ''close_modals'' s) = (False, s1)"
    and c: "clicks s1 = clicks s"
    using click_by_text_no_match [OF assms(1), of 1500 "mark ''close_modals'' s"]
    by (cases "click_by_text b page CLOSE_TEXTS 1500 (mark ''close_modals'' s)") auto
  show ?thesis
    using click_close_icons_no_match [OF assms(2), of r s1] a c
    by (simp add: close_modals_def)
qed

lemma rerun_obstacle_handlers_no_match:
  assumes "no_obstacle_match b page"
  shows "fst (rerun_obstacle_handlers n b page r s) = r
         \<and> clicks (snd (rerun_obstacle_handlers n b page r s)) = clicks s"
proof (induction n arbitrary: s)
  case 0
  then show ?case by simp
next
  case (Suc n)
  have ck: "no_role_match b page COOKIE_TEXTS" and cl: "no_role_match b page CLOSE_TEXTS"
    and ic: "no_locator_match b page close_selectors"
    using assms by (simp_all add: no_obstacle_match_def no_role_match_append)
  obtain s1 where a: "handle_cookies b page r s = (r, s1)" and c1: "clicks s1 = clicks s"
    using handle_cookies_no_match [OF ck, of r s] by (cases "handle_cookies b page r s") auto
  obtain s2 where b: "close_modals b page r s1 = (r, s2)" and c2: "clicks s2 = clicks s1"
    using close_modals_no_match [OF cl ic, of r s1] by (cases "close_modals b page r s1") auto
  show ?case
    using Suc [of s2] a b c1 c2 by simp
qed

lemma click_first_cookie_button_no_match:
  assumes "none_visible b page (map text_selector texts)"
  shows "clicks (click_first_cookie_button b page texts s) = clicks s"
  using assms
proof (induction texts arbitrary: s)
  case Nil
  then show ?case by simp
next
  case (Cons t texts)
  let ?sel = "text_selector t"
  let ?s1 = "\<lparr>world = snd (is_visible b page ?sel (world s)), trace = trace s @ [Is_visible page ?sel]\<rparr>"
  have c: "clicks ?s1 = clicks s"
    by (simp add: clicks_def)
  have nv: "fst (is_visible b page ?sel (world s)) \<noteq> Inr True"
    and rest: "none_visible b page (map text_selector texts)"
    using Cons.prems by (simp_all add: none_visible_Cons)
  show ?case
    using Cons.IH [OF rest, of ?s1] c nv
    by (cases "fst (is_visible b page ?sel (world s))") (auto simp: perform_eq Let_def)
qed

lemma click_each_visible_no_match:
  assumes "none_visible b page sels"
  shows "clicks (click_each_visible b page sels s) = clicks s"
  using assms
proof (induction sels arbitrary: s)
  case Nil
  then show ?case by simp
next
  case (Cons sel sels)
  let ?s1 = "\<lparr>world = snd (is_visible b page sel (world s)), trace = trace s @ [Is_visible page sel]\<rparr>"
  have c: "clicks ?s1 = clicks s"
    by (simp add: clicks_def)
  have nv: "fst (is_visible b page sel (world s)) \<noteq> Inr True"
    and rest: "none_visible b page sels"
    using Cons.prems by (simp_all add: none_visible_Cons)
  show ?case
    using Cons.IH [OF rest, of ?s1] c nv
    by (cases "fst (is_visible b page sel (world s))") (auto simp: perform_eq)
qed

lemma rerun_PdfHarvester_handlers_no_match:
  assumes "no_PdfHarvester_match b page"
  shows "clicks (rerun_PdfHarvester_handlers n b page s) = clicks s"
proof (induction n arbitrary: s)
  case 0
  then show ?case by simp
next
  case (Suc n)
  have ck: "none_visible b page (map text_selector COOKIE_BUTTON_TEXTS)"
    and pt: "none_visible b page (map text_selector POPUP_CLOSE_TEXTS)"
    and ps: "none_visible b page POPUP_CLOSE_SELECTORS"
    using assms by (simp_all add: no_PdfHarvester_match_def none_visible_append)
  show ?case
    by (simp add: Suc PdfHarvester_handle_popups_def PdfHarvester_handle_cookies_def
        click_each_visible_no_match [OF pt] click_each_visible_no_match [OF ps]
        click_first_cookie_button_no_match [OF ck])
qed

text \<open>The link and the text of the test page are matched by none of the candidates.\<close>

lemma report_page_candidates:
  "list_all (\<lambda>t. \<not> named_like ''Annual report'' t) (COOKIE_TEXTS @ CLOSE_TEXTS)"
  "list_all (\<lambda>sel. sel \<noteq> ''a'' \<and> sel \<noteq> ''body'') close_selectors"
  "list_all (\<lambda>sel. \<not> (sel = ''a'' \<or> sel = ''body'' \<or> text_selector_matches ''Annual report 2026'' sel))
     (map text_selector (COOKIE_BUTTON_TEXTS @ POPUP_CLOSE_TEXTS) @ POPUP_CLOSE_SELECTORS)"
  by code_simp+

lemma report_page_no_match:
  "no_role_match report_page 0 (COOKIE_TEXTS @ CLOSE_TEXTS)"
  "no_obstacle_match report_page 0"
  "no_PdfHarvester_match report_page 0"
  using report_page_candidates
  by (auto simp: no_obstacle_match_def no_PdfHarvester_match_def no_role_match_def
      no_locator_match_def none_visible_def list_all_iff report_page_def quiet_def)

text \<open>
  C9.  On a page where none of the phrases given to the matcher names a button or a link,
  the matcher returns \<open>False\<close> without a click.  On a page where no candidate phrase
  or selector of the cookie and modal handlers matches, these handlers, run any number of
  times, make no click and leave the result as it is: no action is recorded.  This holds
  of both modules, and whatever else is on the page.  The handlers catch every exception
  of the calls they make: their results carry no exception.
\<close>

theorem obstacle_handlers_no_match:
  "(no_role_match b page texts \<longrightarrow>
      fst (click_by_text b page texts ms s) = False
      \<and> clicks (snd (click_by_text b page texts ms s)) = clicks s)
   \<and> (no_obstacle_match b page \<longrightarrow>
        fst (rerun_obstacle_handlers n b page r s) = r
        \<and> clicks (snd (rerun_obstacle_handlers n b page r s)) = clicks s)
   \<and> (no_PdfHarvester_match b page \<longrightarrow>
        clicks (rerun_PdfHarvester_handlers n b page s) = clicks s)"
  using click_by_text_no_match [of b page texts ms s]
    rerun_obstacle_handlers_no_match [of b page n r s]
    rerun_PdfHarvester_handlers_no_match [of b page n s]
  by blast

theorem obstacle_handlers_no_match_witness:
  "no_role_match report_page 0 (COOKIE_TEXTS @ CLOSE_TEXTS)
   \<and> no_obstacle_match report_page 0
   \<and> no_PdfHarvester_match report_page 0
   \<and> fst (role_count report_page 0 Link ''report'' 0) = Inr 1
   \<and> fst (is_visible report_page 0 ''body'' 0) = Inr True
   \<and> fst (click_by_text report_page 0 (COOKIE_TEXTS @ CLOSE_TEXTS) 1500 start) = False
   \<and> clicks (snd (click_by_text report_page 0 (COOKIE_TEXTS @ CLOSE_TEXTS) 1500 start)) = []
   \<and> fst (rerun_obstacle_handlers 3 report_page 0
            (new_result ''Acme Capital'' ''https://example.org/outlook'') start)
       = new_result ''Acme Capital'' ''https://example.org/outlook''
   \<and> clicks (snd (rerun_obstacle_handlers 3 report_page 0
                     (new_result ''Acme Capital'' ''https://example.org/outlook'') start)) = []
   \<and> clicks (rerun_PdfHarvester_handlers 3 report_page 0 start) = []"
proof -
  have c: "clicks start = []"
    by (simp add: clicks_def start_def)
  have m: "fst (role_count report_page 0 Link ''report'' 0) = Inr 1"
    "fst (is_visible report_page 0 ''body'' 0) = Inr True"
    by code_simp+
  show ?thesis
    using obstacle_handlers_no_match [of report_page 0 "COOKIE_TEXTS @ CLOSE_TEXTS" 1500 start 3
        "new_result ''Acme Capital'' ''https://example.org/outlook''"] report_page_no_match c m
    by simp
qed

text \<open>
  C10.  Once the click on a profile option has succeeded, \<open>resolve_gate\<close> reports
  the gate as handled and its last action tag is \<open>gate_continued\<close>, whatever the
  click on Continue, Confirm or Agree does.  In the witness no such button exists: the
  tag is recorded and the only click is the one on the profile option.
\<close>

theorem gate_continued_unconditional:
  assumes "fst (detect_gate b page (mark ''resolve_gate'' s))"
    and "profile \<noteq> ''unknown''"
    and "map_of PROFILE_MAP profile = Some choices"
    and "fst (click_by_text b page choices 2500 (snd (detect_gate b page (mark ''resolve_gate'' s))))"
  shows "fst (resolve_gate b profile page r s) = (True, ''Gate handled using profile='' @ profile @ ''.'')
         \<and> last (actions (fst (snd (resolve_gate b profile page r s)))) = ''gate_continued''"
proof -
  obtain s1 where d: "detect_gate b page (mark ''resolve_gate'' s) = (True, s1)"
    using assms(1) by (cases "detect_gate b page (mark ''resolve_gate'' s)") auto
  obtain s2 where c: "click_by_text b page choices 2500 s1 = (True, s2)"
    using assms(4) d by (cases "click_by_text b page choices 2500 s1") auto
  have ne: "choices \<noteq> []"
    using c by auto
  show ?thesis
    using d c ne assms(2,3)
    by (simp add: resolve_gate_def Let_def append_action_def split: prod.splits)
qed

theorem gate_continued_unconditional_witness:
  "fst (resolve_gate institutional_page ''institutional'' 0
          (new_result ''Acme Capital'' ''https://example.org/outlook'') start)
     = (True, ''Gate handled using profile=institutional.'')
   \<and> actions (fst (snd (resolve_gate institutional_page ''institutional'' 0
          (new_result ''Acme Capital'' ''https://example.org/outlook'') start)))
     = [''gate_detected'', ''gate_selected_institutional'', ''gate_continued'']
   \<and> clicks (snd (snd (resolve_gate institutional_page ''institutional'' 0
          (new_result ''Acme Capital'' ''https://example.org/outlook'') start)))
     = [Role_click 0 Button ''Institutional'']"
proof -
  have a: "fst (detect_gate institutional_page 0 (mark ''resolve_gate'' start))"
    by code_simp
  have b: "''institutional'' \<noteq> ''unknown''"
    by simp
  have c: "map_of PROFILE_MAP ''institutional''
             = Some [''Institutional'', ''Financial intermediary'', ''Intermediary'', ''Institutional Investor'']"
    by code_simp
  have d: "fst (click_by_text institutional_page 0
             [''Institutional'', ''Financial intermediary'', ''Intermediary'', ''Institutional Investor'']
             2500 (snd (detect_gate institutional_page 0 (mark ''resolve_gate'' start))))"
    by code_simp
  have e: "actions (fst (snd (resolve_gate institutional_page ''institutional'' 0
          (new_result ''Acme Capital'' ''https://example.org/outlook'') start)))
     = [''gate_detected'', ''gate_selected_institutional'', ''gate_continued'']"
    by code_simp
  have f: "clicks (snd (snd (resolve_gate institutional_page ''institutional'' 0
          (new_result ''Acme Capital'' ''https://example.org/outlook'') start)))
     = [Role_click 0 Button ''Institutional'']"
    by code_simp
  show ?thesis
    using gate_continued_unconditional [OF a b c d] e f by simp
qed

section \<open>The download trigger\<close>

text \<open>In harvester.py no download is ever saved.\<close>

lemma save_download_fails: "PdfHarvester_save_download b dl inst result s = (False, result, s)"
  by (simp add: PdfHarvester_save_download_def harvester_globals_def)

lemma click_first_visible_result:
  "fst (click_first_visible b page inst els result s) \<noteq> Some True
   \<and> fst (snd (click_first_visible b page inst els result s)) = result"
proof (induction els arbitrary: s)
  case Nil
  then show ?case by simp
next
  case (Cons el els)
  show ?case
    using Cons
    by (simp add: perform_eq save_download_fails split: sum.splits prod.splits)
qed

lemma try_download_keywords_result:
  "fst (try_download_keywords b page inst kws result s) = False
   \<and> fst (snd (try_download_keywords b page inst kws result s)) = result"
proof (induction kws arbitrary: s)
  case Nil
  then show ?case by simp
next
  case (Cons kw kws)
  let ?sel = "text_selector kw"
  let ?s1 = "\<lparr>world = snd (locator_all b page ?sel (world s)), trace = trace s @ [Locator_all page ?sel]\<rparr>"
  show ?case
  proof (cases "fst (locator_all b page ?sel (world s))")
    case (Inl e)
    then show ?thesis using Cons by (simp add: perform_eq Let_def)
  next
    case (Inr elements)
    obtain v r1 s2 where c: "click_first_visible b page inst elements result ?s1 = (v, r1, s2)"
      by (cases "click_first_visible b page inst elements result ?s1") auto
    with click_first_visible_result [of b page inst elements result ?s1]
    have v: "v \<noteq> Some True" and r1: "r1 = result" by auto
    show ?thesis
    proof (cases v)
      case None
      with Inr c r1 Cons show ?thesis by (simp add: perform_eq Let_def)
    next
      case (Some saved)
      with v have "saved = False" by simp
      with Some Inr c r1 show ?thesis by (simp add: perform_eq Let_def)
    qed
  qed
qed

lemma try_download_buttons_result:
  "fst (PdfHarvester_try_download_buttons b page inst result s) = False
   \<and> fst (snd (PdfHarvester_try_download_buttons b page inst result s)) = result"
  by (simp add: PdfHarvester_try_download_buttons_def try_download_keywords_result)

text \<open>
  C5.  \<open>_try_download_buttons\<close> of harvester.py on a page where the phrases before
  \<open>download\<close> match nothing and the element that matches \<open>download\<close> is clicked
  and its download event fires: the phrases are tried in order, but the captured download
  is never saved (\<open>_save_download\<close> fails on the unbound name \<open>os\<close>), the function
  returns \<open>False\<close> and the dictionary gets no file path.
\<close>

theorem try_download_buttons_never_saves:
  "PdfHarvester_try_download_buttons download_button_page 0 ''Acme Capital''
          (empty_dict ''https://example.org/outlook'') start
   = (False, empty_dict ''https://example.org/outlook'',
      \<lparr>world = 0,
       trace = [Call ''_try_download_buttons'',
                Locator_all 0 ''text=/download full pdf/i'',
                Locator_all 0 ''text=/download pdf/i'',
                Locator_all 0 ''text=/view pdf/i'',
                Locator_all 0 ''text=/full report/i'',
                Locator_all 0 ''text=/download/i'', Element_is_visible 0,
                Expect_download 0, Element_click 0, Download_value 0]\<rparr>)"
  by code_simp

text \<open>
  \<open>try_download_event\<close> of pdf\_harvester.py does what the claim says: each phrase is
  one attempt, made in the order of \<open>DOWNLOAD_HINTS\<close>; a failed attempt leaves the
  result as it was and the next phrase is tried; the first phrase whose click and download
  succeed ends the loop with the saved path; \<open>None\<close> is returned after all phrases
  were attempted.
\<close>

lemma attempts_click_role: "attempts (snd (click_role b page rl t ms s)) = attempts s"
  by (simp add: click_role_def perform_eq attempts_def split: sum.splits)

lemma attempts_click_by_text: "attempts (snd (click_by_text b page texts ms s)) = attempts s"
proof (induction texts arbitrary: s)
  case Nil
  then show ?case by simp
next
  case (Cons t texts)
  obtain c1 s1 where a: "click_role b page Button t ms s = (c1, s1)"
    by (cases "click_role b page Button t ms s") auto
  obtain c2 s2 where b: "click_role b page Link t ms s1 = (c2, s2)"
    by (cases "click_role b page Link t ms s1") auto
  have "attempts s1 = attempts s" "attempts s2 = attempts s1"
    using attempts_click_role [of b page Button t ms s] attempts_click_role [of b page Link t ms s1] a b
    by auto
  then show ?case
    using Cons [of s2] a b by (cases c1; cases c2) simp_all
qed

lemma try_download_hint_cases:
  assumes "try_download_hint b page inst hint r s = (res, r', s')"
  shows "attempts s' = Suc (attempts s)
         \<and> ((res = None \<and> r' = r)
            \<or> (res = Some (DOWNLOAD_DIR @ ''/'' @ safe_filename inst)
               \<and> r' = append_action (''downloaded_via_click:'' @ hint) r))"
proof -
  let ?s1 = "\<lparr>world = snd (expect_download b page 3000 (world s)), trace = trace s @ [Expect_download page]\<rparr>"
  have a1: "attempts ?s1 = Suc (attempts s)"
    by (simp add: attempts_def)
  obtain c s2 where cl: "click_by_text b page [hint] 1500 ?s1 = (c, s2)"
    by (cases "click_by_text b page [hint] 1500 ?s1") auto
  have a2: "attempts s2 = Suc (attempts s)"
    using attempts_click_by_text [of b page "[hint]" 1500 ?s1] cl a1 by simp
  show ?thesis
    using assms a1 a2 cl
    by (auto simp: try_download_hint_def perform_eq attempts_def Let_def
        split: sum.splits if_splits bool.splits)
qed

lemma try_download_hints_append:
  "try_download_hints b page inst (pre @ post) r s =
     (case try_download_hints b page inst pre r s of
        (Some out, r1, s1) \<Rightarrow> (Some out, r1, s1)
      | (None, r1, s1) \<Rightarrow> try_download_hints b page inst post r1 s1)"
  by (induction pre arbitrary: r s) (auto split: prod.splits option.splits)

lemma try_download_hints_cases:
  assumes "try_download_hints b page inst hints r s = (res, r', s')"
  shows "(res = None \<and> r' = r \<and> attempts s' = attempts s + length hints)
         \<or> (\<exists>pre hint post. hints = pre @ hint # post
               \<and> res = Some (DOWNLOAD_DIR @ ''/'' @ safe_filename inst)
               \<and> r' = append_action (''downloaded_via_click:'' @ hint) r
               \<and> attempts s' = attempts s + length pre + 1)"
  using assms
proof (induction hints arbitrary: r s)
  case Nil
  then show ?case by simp
next
  case (Cons hint hints)
  obtain res1 r1 s1 where h: "try_download_hint b page inst hint r s = (res1, r1, s1)"
    by (cases "try_download_hint b page inst hint r s") auto
  note c = try_download_hint_cases [OF h]
  show ?case
  proof (cases res1)
    case None
    with c have r1: "r1 = r" and a1: "attempts s1 = Suc (attempts s)" by auto
    from None h Cons.prems have rest: "try_download_hints b page inst hints r s1 = (res, r', s')"
      using r1 by simp
    from Cons.IH [OF rest] show ?thesis
    proof
      assume "res = None \<and> r' = r \<and> attempts s' = attempts s1 + length hints"
      then show ?thesis using a1 by simp
    next
      assume "\<exists>pre h post. hints = pre @ h # post
               \<and> res = Some (DOWNLOAD_DIR @ ''/'' @ safe_filename inst)
               \<and> r' = append_action (''downloaded_via_click:'' @ h) r
               \<and> attempts s' = attempts s1 + length pre + 1"
      then obtain pre h post where p: "hints = pre @ h # post"
        "res = Some (DOWNLOAD_DIR @ ''/'' @ safe_filename inst)"
        "r' = append_action (''downloaded_via_click:'' @ h) r"
        "attempts s' = attempts s1 + length pre + 1" by blast
      have "hint # hints = (hint # pre) @ h # post" using p(1) by simp
      moreover have "attempts s' = attempts s + length (hint # pre) + 1" using p(4) a1 by simp
      ultimately show ?thesis using p(2,3) by blast
    qed
  next
    case (Some out)
    with c have o: "res1 = Some (DOWNLOAD_DIR @ ''/'' @ safe_filename inst)"
      and r1: "r1 = append_action (''downloaded_via_click:'' @ hint) r"
      and a1: "attempts s1 = Suc (attempts s)" by auto
    from Some h Cons.prems have "res = res1" "r' = r1" "s' = s1" by auto
    then have "hint # hints = [] @ hint # hints \<and> res = Some (DOWNLOAD_DIR @ ''/'' @ safe_filename inst)
       \<and> r' = append_action (''downloaded_via_click:'' @ hint) r
       \<and> attempts s' = attempts s + length ([] :: string list) + 1"
      using o r1 a1 by simp
    then show ?thesis by blast
  qed
qed

lemma attempts_mark: "attempts (mark f s) = attempts s"
  by (simp add: attempts_def mark_def)

lemma try_download_event_priority:
  assumes "try_download_event b page inst r s = (res, r', s')"
  shows "(res = None \<and> r' = r \<and> attempts s' = attempts s + length DOWNLOAD_HINTS)
         \<or> (\<exists>pre hint post. DOWNLOAD_HINTS = pre @ hint # post
               \<and> res = Some (DOWNLOAD_DIR @ ''/'' @ safe_filename inst)
               \<and> r' = append_action (''downloaded_via_click:'' @ hint) r
               \<and> attempts s' = attempts s + length pre + 1)"
  using try_download_hints_cases [OF assms [unfolded try_download_event_def]]
  by (simp add: attempts_mark)

lemma try_download_event_pdf_only:
  "fst (try_download_event pdf_only_page 0 ''Acme Capital''
          (new_result ''Acme Capital'' ''https://example.org/outlook'') start)
     = Some ''downloads/acme_capital_2026.pdf''
   \<and> actions (fst (snd (try_download_event pdf_only_page 0 ''Acme Capital''
          (new_result ''Acme Capital'' ''https://example.org/outlook'') start)))
     = [''downloaded_via_click:pdf'']
   \<and> attempts (snd (snd (try_download_event pdf_only_page 0 ''Acme Capital''
          (new_result ''Acme Capital'' ''https://example.org/outlook'') start))) = 4"
  by code_simp

section \<open>The trace only grows\<close>

text \<open>Whatever is a prefix of the trace before a call is a prefix of it afterwards.\<close>

lemma ext_perform [simp]:
  "prefix xs (trace s) \<Longrightarrow> prefix xs (trace (snd (perform ev op s)))"
  by (simp add: perform_eq)

lemma ext_mark [simp]: "prefix xs (trace s) \<Longrightarrow> prefix xs (trace (mark f s))"
  by (simp add: mark_def)

lemma ext_do_sleep [simp]: "prefix xs (trace s) \<Longrightarrow> prefix xs (trace (do_sleep b ms s))"
  by (simp add: do_sleep_def)

lemma ext_body_text [simp]:
  "prefix xs (trace s) \<Longrightarrow> prefix xs (trace (snd (body_text b page s)))"
  by (simp add: body_text_def case_prod_beta split: sum.split)

lemma ext_click_role [simp]:
  "prefix xs (trace s) \<Longrightarrow> prefix xs (trace (snd (click_role b page rl t ms s)))"
  by (simp add: click_role_def case_prod_beta split: sum.split)

lemma ext_click_by_text [simp]:
  "prefix xs (trace s) \<Longrightarrow> prefix xs (trace (snd (click_by_text b page texts ms s)))"
  by (induction texts arbitrary: s) (simp_all add: case_prod_beta split: bool.split)

lemma ext_handle_cookies [simp]:
  "prefix xs (trace s) \<Longrightarrow> prefix xs (trace (snd (handle_cookies b page r s)))"
  by (simp add: handle_cookies_def case_prod_beta split: bool.split)

lemma ext_click_close_icons [simp]:
  "prefix xs (trace s) \<Longrightarrow> prefix xs (trace (snd (click_close_icons b page sels r s)))"
  by (induction sels arbitrary: s r) (simp_all add: case_prod_beta split: sum.split)

lemma ext_close_modals [simp]:
  "prefix xs (trace s) \<Longrightarrow> prefix xs (trace (snd (close_modals b page r s)))"
  by (simp add: close_modals_def case_prod_beta)

lemma ext_detect_gate [simp]:
  "prefix xs (trace s) \<Longrightarrow> prefix xs (trace (snd (detect_gate b page s)))"
  by (simp add: detect_gate_def case_prod_beta)

lemma ext_resolve_gate [simp]:
  "prefix xs (trace s) \<Longrightarrow> prefix xs (trace (snd (snd (resolve_gate b profile page r s))))"
  by (simp add: resolve_gate_def case_prod_beta Let_def split: bool.split)

lemma ext_linkedin [simp]:
  "prefix xs (trace s) \<Longrightarrow> prefix xs (trace (snd (handle_linkedin_interstitial b page r s)))"
  by (simp add: handle_linkedin_interstitial_def case_prod_beta Let_def split: bool.split)

lemma ext_scroll [simp]:
  "prefix xs (trace s) \<Longrightarrow> prefix xs (trace (scroll b page s))"
  by (simp add: scroll_def case_prod_beta split: sum.split)

lemma ext_try_download_hint [simp]:
  "prefix xs (trace s) \<Longrightarrow> prefix xs (trace (snd (snd (try_download_hint b page inst hint r s))))"
  by (simp add: try_download_hint_def case_prod_beta Let_def split: sum.split bool.split)

lemma ext_try_download_hints [simp]:
  "prefix xs (trace s) \<Longrightarrow> prefix xs (trace (snd (snd (try_download_hints b page inst hints r s))))"
  by (induction hints arbitrary: s r) (simp_all add: case_prod_beta split: option.split)

lemma ext_try_download_event [simp]:
  "prefix xs (trace s) \<Longrightarrow> prefix xs (trace (snd (snd (try_download_event b page inst r s))))"
  by (simp add: try_download_event_def)

lemma ext_collect [simp]:
  "prefix xs (trace s) \<Longrightarrow> prefix xs (trace (snd (collect_candidate_links b page s)))"
  by (simp add: collect_candidate_links_def case_prod_beta split: sum.split)

lemma ext_close_finally [simp]:
  "prefix xs (trace (snd (snd x))) \<Longrightarrow> prefix xs (trace (snd (snd (close_finally b p x))))"
  by (simp add: close_finally_def case_prod_beta split: sum.split)

lemma ext_download_in_page [simp]:
  "prefix xs (trace s) \<Longrightarrow> prefix xs (trace (snd (snd (download_in_page b p inst target r s))))"
  by (simp add: download_in_page_def case_prod_beta split: sum.split option.split)

lemma ext_open_and_download [simp]:
  "prefix xs (trace s) \<Longrightarrow> prefix xs (trace (snd (snd (open_and_download b inst target r s))))"
  by (simp add: open_and_download_def case_prod_beta split: sum.split)

lemma ext_follow_sniffed [simp]:
  "prefix xs (trace s) \<Longrightarrow> prefix xs (trace (snd (snd (follow_sniffed b inst p2 r s))))"
  by (simp add: follow_sniffed_def case_prod_beta split: flow.split)

lemma ext_candidate_body [simp]:
  "prefix xs (trace s) \<Longrightarrow> prefix xs (trace (snd (snd (candidate_body b profile inst p2 cand r s))))"
  by (simp add: candidate_body_def case_prod_beta split: sum.split option.split bool.split)

lemma ext_visit_candidate [simp]:
  "prefix xs (trace s) \<Longrightarrow> prefix xs (trace (snd (snd (visit_candidate b profile inst cand r s))))"
  by (simp add: visit_candidate_def case_prod_beta split: sum.split)

lemma ext_crawl_candidates [simp]:
  "prefix xs (trace s) \<Longrightarrow> prefix xs (trace (snd (snd (crawl_candidates b profile inst cands r s))))"
  by (induction cands arbitrary: s r) (simp_all add: case_prod_beta split: flow.split)

lemma ext_screenshot_and_return [simp]:
  "prefix xs (trace s) \<Longrightarrow> prefix xs (trace (snd (snd (screenshot_and_return b page inst tag r s))))"
  by (simp add: screenshot_and_return_def case_prod_beta split: sum.split)

lemma ext_crawl_and_report [simp]:
  "prefix xs (trace s) \<Longrightarrow> prefix xs (trace (snd (snd (crawl_and_report b profile page inst r s))))"
  by (simp add: crawl_and_report_def case_prod_beta split: flow.split)

lemma ext_follow_and_crawl [simp]:
  "prefix xs (trace s) \<Longrightarrow> prefix xs (trace (snd (snd (follow_and_crawl b profile page inst r s))))"
  by (simp add: follow_and_crawl_def case_prod_beta split: flow.split)

lemma ext_search_downloads [simp]:
  "prefix xs (trace s) \<Longrightarrow> prefix xs (trace (snd (snd (search_downloads b profile page inst r s))))"
  by (simp add: search_downloads_def case_prod_beta Let_def split: option.split)

lemma ext_load_and_clear [simp]:
  "prefix xs (trace s) \<Longrightarrow> prefix xs (trace (snd (snd (load_and_clear b page url r s))))"
  by (simp add: load_and_clear_def case_prod_beta split: sum.split)

lemma ext_harvest_body [simp]:
  "prefix xs (trace s) \<Longrightarrow> prefix xs (trace (snd (snd (harvest_body b profile page inst url r s))))"
  by (simp add: harvest_body_def case_prod_beta split: option.split bool.split)

lemma ext_report_error [simp]:
  "prefix xs (trace s) \<Longrightarrow> prefix xs (trace (snd (report_error b page inst e r s)))"
  by (simp add: report_error_def case_prod_beta)

lemma ext_harvest_try [simp]:
  "prefix xs (trace s) \<Longrightarrow> prefix xs (trace (snd (harvest_try b profile page inst url r s)))"
  by (simp add: harvest_try_def case_prod_beta split: flow.split)

lemma ext_harvest_one [simp]:
  "prefix xs (trace s) \<Longrightarrow> prefix xs (trace (snd (harvest_one b profile inst url s)))"
  by (simp add: harvest_one_def case_prod_beta split: sum.split)

section \<open>No download attempt before the gate check\<close>

lemma attempts_perform [simp]:
  "\<not> is_expect_download ev \<Longrightarrow> attempts (snd (perform ev op s)) = attempts s"
  by (simp add: perform_eq attempts_def)

lemma attempts_do_sleep [simp]: "attempts (do_sleep b ms s) = attempts s"
  by (simp add: do_sleep_def)

declare attempts_mark [simp] attempts_click_role [simp] attempts_click_by_text [simp]

lemma attempts_body_text [simp]: "attempts (snd (body_text b page s)) = attempts s"
  by (simp add: body_text_def case_prod_beta split: sum.split)

lemma attempts_handle_cookies [simp]: "attempts (snd (handle_cookies b page r s)) = attempts s"
  by (simp add: handle_cookies_def case_prod_beta split: bool.split)

lemma attempts_click_close_icons [simp]:
  "attempts (snd (click_close_icons b page sels r s)) = attempts s"
  by (induction sels arbitrary: s r) (simp_all add: case_prod_beta split: sum.split)

lemma attempts_close_modals [simp]: "attempts (snd (close_modals b page r s)) = attempts s"
  by (simp add: close_modals_def case_prod_beta)

lemma attempts_detect_gate [simp]: "attempts (snd (detect_gate b page s)) = attempts s"
  by (simp add: detect_gate_def case_prod_beta)

lemma attempts_resolve_gate [simp]:
  "attempts (snd (snd (resolve_gate b profile page r s))) = attempts s"
  by (simp add: resolve_gate_def case_prod_beta Let_def split: bool.split)

lemma attempts_linkedin [simp]:
  "attempts (snd (handle_linkedin_interstitial b page r s)) = attempts s"
  by (simp add: handle_linkedin_interstitial_def case_prod_beta Let_def split: bool.split)

lemma attempts_scroll [simp]: "attempts (scroll b page s) = attempts s"
  by (simp add: scroll_def case_prod_beta split: sum.split)

lemma attempts_load_and_clear [simp]:
  "attempts (snd (snd (load_and_clear b page url r s))) = attempts s"
  by (simp add: load_and_clear_def case_prod_beta split: sum.split)

lemma attempts_screenshot_and_return [simp]:
  "attempts (snd (snd (screenshot_and_return b page inst tag r s))) = attempts s"
  by (simp add: screenshot_and_return_def case_prod_beta split: sum.split)

lemma attempts_report_error [simp]: "attempts (snd (report_error b page inst e r s)) = attempts s"
  by (simp add: report_error_def case_prod_beta)

text \<open>Each handler starts with its mark.\<close>

lemma handle_cookies_mark:
  "prefix (trace s @ [Call ''handle_cookies'']) (trace (snd (handle_cookies b page r s)))"
  by (simp add: handle_cookies_def case_prod_beta trace_mark split: bool.split)

lemma close_modals_mark:
  "prefix (trace s @ [Call ''close_modals'']) (trace (snd (close_modals b page r s)))"
  by (simp add: close_modals_def case_prod_beta trace_mark)

lemma resolve_gate_mark:
  "prefix (trace s @ [Call ''resolve_gate'']) (trace (snd (snd (resolve_gate b profile page r s))))"
  by (simp add: resolve_gate_def case_prod_beta Let_def trace_mark split: bool.split)

lemma no_attempts_between:
  assumes "trace s' = trace s @ evs" and "attempts s' = attempts s"
  shows "filter is_expect_download evs = []"
  using assms by (simp add: attempts_def)

lemma load_and_clear_events:
  assumes "load_and_clear b page url r s = (None, r1, s1)"
  shows "\<exists>B1 B2 B3. trace s1 = trace s @ B1 @ Call ''handle_cookies'' # B2 @ Call ''close_modals'' # B3"
proof -
  obtain resp where g: "fst (perform (Goto page url) (goto b page url) s) = Inr resp"
    using assms by (cases "fst (perform (Goto page url) (goto b page url) s)")
      (auto simp: load_and_clear_def case_prod_beta)
  define sa where "sa = scroll b page (snd (handle_linkedin_interstitial b page r
      (do_sleep b 1000 (snd (perform (Goto page url) (goto b page url) s)))))"
  define ra where "ra = fst (handle_linkedin_interstitial b page r
      (do_sleep b 1000 (snd (perform (Goto page url) (goto b page url) s))))"
  define sb where "sb = snd (handle_cookies b page ra sa)"
  define rb where "rb = fst (handle_cookies b page ra sa)"
  have s1: "s1 = snd (close_modals b page rb sb)"
    using assms g by (simp add: load_and_clear_def case_prod_beta sa_def ra_def sb_def rb_def)
  have "prefix (trace s) (trace sa)"
    by (simp add: sa_def)
  then obtain B1 where b1: "trace sa = trace s @ B1"
    by (auto simp: prefix_def)
  have "prefix (trace sa @ [Call ''handle_cookies'']) (trace sb)"
    unfolding sb_def by (rule handle_cookies_mark)
  then obtain B2 where b2: "trace sb = trace sa @ Call ''handle_cookies'' # B2"
    by (auto simp: prefix_def)
  have "prefix (trace sb @ [Call ''close_modals'']) (trace s1)"
    unfolding s1 by (rule close_modals_mark)
  then obtain B3 where b3: "trace s1 = trace sb @ Call ''close_modals'' # B3"
    by (auto simp: prefix_def)
  have "trace s1 = trace s @ B1 @ Call ''handle_cookies'' # B2 @ Call ''close_modals'' # B3"
    using b1 b2 b3 by simp
  then show ?thesis by blast
qed

lemma harvest_body_gate_mark:
  assumes "load_and_clear b page url r s = (None, r1, s1)"
  shows "prefix (trace s1 @ [Call ''resolve_gate''])
           (trace (snd (snd (harvest_body b profile page inst url r s))))"
proof -
  have "prefix (trace s1 @ [Call ''resolve_gate'']) (trace (snd (snd (resolve_gate b profile page r1 s1))))"
    by (rule resolve_gate_mark)
  then show ?thesis
    using assms by (simp add: harvest_body_def case_prod_beta split: bool.split)
qed

lemma harvest_body_load_failed:
  assumes "load_and_clear b page url r s = (Some e, r1, s1)"
  shows "harvest_body b profile page inst url r s = (Raised e, r1, s1)"
  using assms by (simp add: harvest_body_def)

lemma harvest_one_gate_first:
  "\<exists>evs. trace (snd (harvest_one b profile inst url s)) = trace s @ evs
     \<and> (filter is_expect_download evs = []
        \<or> (\<exists>A1 A2 A3 R. evs = A1 @ Call ''handle_cookies'' # A2 @ Call ''close_modals'' # A3
                                 @ Call ''resolve_gate'' # R
              \<and> filter is_expect_download (A1 @ A2 @ A3) = []))"
proof -
  let ?s0 = "mark ''harvest_one'' s"
  let ?np = "perform New_page (new_page b) ?s0"
  show ?thesis
  proof (cases "fst ?np")
    case (Inl e)
    then have "snd (harvest_one b profile inst url s) = snd ?np"
      by (simp add: harvest_one_def case_prod_beta)
    then have "trace (snd (harvest_one b profile inst url s)) = trace s @ [Call ''harvest_one'', New_page]"
      by (simp add: perform_eq trace_mark)
    then show ?thesis by simp
  next
    case (Inr page)
    let ?s1 = "snd ?np"
    let ?r0 = "new_result inst url"
    have t1: "trace ?s1 = trace s @ [Call ''harvest_one'', New_page]"
      by (simp add: perform_eq trace_mark)
    have a1: "attempts ?s1 = attempts s"
      by simp
    obtain x r1 s2 where lc: "load_and_clear b page url ?r0 ?s1 = (x, r1, s2)"
      by (cases "load_and_clear b page url ?r0 ?s1") auto
    have a2: "attempts s2 = attempts s"
      using attempts_load_and_clear [of b page url ?r0 ?s1] lc a1 by simp
    let ?fin = "snd (harvest_one b profile inst url s)"
    have fin: "?fin = snd (perform (Close page) (close b page)
                  (snd (harvest_try b profile page inst url ?r0 ?s1)))"
      using Inr by (simp add: harvest_one_def case_prod_beta split: sum.split)
    show ?thesis
    proof (cases x)
      case (Some e)
      have "harvest_try b profile page inst url ?r0 ?s1 = report_error b page inst e r1 s2"
        using harvest_body_load_failed [OF lc [unfolded Some]] by (simp add: harvest_try_def)
      then have af: "attempts ?fin = attempts s"
        using fin a2 by simp
      have "prefix (trace s) (trace ?fin)"
        by simp
      then obtain evs where e: "trace ?fin = trace s @ evs"
        by (auto simp: prefix_def)
      from no_attempts_between [OF e af] e show ?thesis by blast
    next
      case None
      from load_and_clear_events [OF lc [unfolded None]]
      obtain B1 B2 B3 where b: "trace s2 = trace ?s1 @ B1 @ Call ''handle_cookies'' # B2 @ Call ''close_modals'' # B3"
        by blast
      have "filter is_expect_download (B1 @ Call ''handle_cookies'' # B2 @ Call ''close_modals'' # B3) = []"
        using no_attempts_between [OF b] a2 a1 by simp
      then have ne: "filter is_expect_download (([Call ''harvest_one'', New_page] @ B1) @ B2 @ B3) = []"
        by simp
      have "prefix (trace s2 @ [Call ''resolve_gate''])
              (trace (snd (snd (harvest_body b profile page inst url ?r0 ?s1))))"
        by (rule harvest_body_gate_mark [OF lc [unfolded None]])
      then have "prefix (trace s2 @ [Call ''resolve_gate''])
              (trace (snd (harvest_try b profile page inst url ?r0 ?s1)))"
        by (simp add: harvest_try_def case_prod_beta split: flow.split)
      then have "prefix (trace s2 @ [Call ''resolve_gate'']) (trace ?fin)"
        unfolding fin by simp
      then obtain R where "trace ?fin = trace s2 @ Call ''resolve_gate'' # R"
        by (auto simp: prefix_def)
      then have "trace ?fin = trace s @ ([Call ''harvest_one'', New_page] @ B1) @ Call ''handle_cookies''
                    # B2 @ Call ''close_modals'' # B3 @ Call ''resolve_gate'' # R"
        using b t1 by simp
      with ne show ?thesis by blast
    qed
  qed
qed

section \<open>The gate check and the download attempts\<close>

lemma harvest_one_manual:
  assumes np: "new_page b (world s) = (Inr page, w1)"
    and lc: "load_and_clear b page url (new_result inst url)
               \<lparr>world = w1, trace = trace s @ [Call ''harvest_one'', New_page]\<rparr> = (None, r1, s2)"
    and rg: "resolve_gate b profile page r1 s2 = ((False, msg), r2, s3)"
  shows "attempts s3 = attempts s
    \<and> trace (snd (harvest_one b profile inst url s)) =
        trace s3 @ Screenshot page (screenshot_path inst ''manual_required'')
          # (case fst (screenshot b page (screenshot_path inst ''manual_required'') (world s3)) of
               Inr u \<Rightarrow> [] | Inl e \<Rightarrow> [Screenshot page (screenshot_path inst ''error'')])
          @ [Close page]
    \<and> (\<forall>r. fst (harvest_one b profile inst url s) = Inr r \<longrightarrow>
          (case fst (screenshot b page (screenshot_path inst ''manual_required'') (world s3)) of
             Inr u \<Rightarrow> status r = ''manual_required'' \<and> result_notes r = Some msg
           | Inl e \<Rightarrow> status r = ''error'' \<and> result_notes r = Some (exn_repr e)))"
proof -
  let ?s1 = "\<lparr>world = w1, trace = trace s @ [Call ''harvest_one'', New_page]\<rparr>"
  have p: "perform New_page (new_page b) (mark ''harvest_one'' s) = (Inr page, ?s1)"
    using np by (simp add: perform_eq trace_mark world_mark)
  have a1: "attempts ?s1 = attempts s"
    by (simp add: attempts_def)
  have a2: "attempts s2 = attempts ?s1"
    using attempts_load_and_clear [of b page url "new_result inst url" ?s1] lc by simp
  have a3: "attempts s3 = attempts s2"
    using attempts_resolve_gate [of b profile page r1 s2] rg by simp
  let ?r3 = "r2\<lparr>final_url := Some (page_url b page (world s3)),
                 status := ''manual_required'', result_notes := Some msg\<rparr>"
  have hb: "harvest_body b profile page inst url (new_result inst url) ?s1 =
              screenshot_and_return b page inst ''manual_required'' ?r3 s3"
    using lc rg by (simp add: harvest_body_def)
  show ?thesis
  proof (cases "fst (screenshot b page (screenshot_path inst ''manual_required'') (world s3))")
    case (Inl e)
    then show ?thesis
      using p hb a1 a2 a3
      by (simp add: harvest_one_def harvest_try_def screenshot_and_return_def report_error_def
          perform_eq case_prod_beta split: sum.split)
  next
    case (Inr u)
    then show ?thesis
      using p hb a1 a2 a3
      by (simp add: harvest_one_def harvest_try_def screenshot_and_return_def
          perform_eq case_prod_beta split: sum.split)
  qed
qed

lemma process_url_manual:
  assumes np: "new_page b (world s) = (Inr page, w1)"
    and g: "goto b page url w1 = (Inr resp, w2)"
    and nr: "\<not> is_pdf_response resp"
    and scan: "PdfHarvester_try_download_buttons b page inst
                 ((empty_dict url)\<lparr>d_final_url := page_url b page w2\<rparr>)
                 (PdfHarvester_handle_popups b page (PdfHarvester_handle_cookies b page
                    \<lparr>world = w2, trace = trace s @ [Call ''process_url'', New_page, Goto page url]\<rparr>))
               = (found, result1, s3)"
    and gate: "PdfHarvester_check_compliance_gate b profile page s3 = (Inr ''manual_required'', s4)"
  shows "trace (snd (process_url b profile inst url s)) =
           trace s4
             @ [Screenshot page
                  (os_path_join (config_SCREENSHOT_DIR b)
                     (inst @ ''_manual_required'' @ ''_'' @ now_stamp b (world s4) @ ''.png'')),
                Close page]
    \<and> (\<forall>v. fst (process_url b profile inst url s) = Inr v \<longrightarrow>
          (\<exists>d. v = Result d \<and> d_status d = ''manual_required'' \<and> d_file_path d = []))"
proof -
  let ?s1 = "\<lparr>world = w1, trace = trace s @ [Call ''process_url'', New_page]\<rparr>"
  let ?s2 = "\<lparr>world = w2, trace = trace s @ [Call ''process_url'', New_page, Goto page url]\<rparr>"
  let ?result = "(empty_dict url)\<lparr>d_final_url := page_url b page w2\<rparr>"
  have p: "perform New_page (new_page b) (mark ''process_url'' s) = (Inr page, ?s1)"
    using np by (simp add: perform_eq trace_mark world_mark)
  have gt: "perform (Goto page url) (goto b page url) ?s1 = (Inr resp, ?s2)"
    using g by (simp add: perform_eq)
  have f: "found = False" and r: "result1 = ?result"
    using try_download_buttons_result [of b page inst ?result
        "PdfHarvester_handle_popups b page (PdfHarvester_handle_cookies b page ?s2)"] scan
    by auto
  have sp: "scan_page b profile page inst ?result ?s2 =
              after_gate_check b page inst ''manual_required'' ?result s4"
    using scan gate f r by (simp add: scan_page_def)
  have body: "process_url_body b profile page inst url (empty_dict url) ?s1 =
              after_gate_check b page inst ''manual_required'' ?result s4"
    using gt nr sp by (simp add: process_url_body_def Let_def)
  show ?thesis
    using p body
    by (simp add: process_url_def process_url_try_def after_gate_check_def save_screenshot_def
        perform_eq case_prod_beta Let_def empty_dict_def split: sum.split)
qed

text \<open>
  C1 (amended).  In \<open>harvest_one\<close>, either no download is attempted at all (the page
  could not be opened or loaded), or cookie handling, modal closing and the gate check
  start in this order before the first download attempt.  When the gate check of the
  task's page reports that manual intervention is required, no download attempt has been
  made and none follows: only the screenshot is requested and the page closed, and the
  result has status \<open>manual_required\<close> with the gate's note, unless the screenshot call
  raises, which turns the status into \<open>error\<close>.  In \<open>process_url\<close> the download
  buttons are scanned once before the gate check; when the gate check answers
  \<open>manual_required\<close>, only the screenshot and the closing of the page follow, and the
  dictionary returned has status \<open>manual_required\<close> and no file path.
\<close>

theorem gate_before_downloads:
  "(\<exists>evs. trace (snd (harvest_one b profile inst url s)) = trace s @ evs
     \<and> (filter is_expect_download evs = []
        \<or> (\<exists>A1 A2 A3 R. evs = A1 @ Call ''handle_cookies'' # A2 @ Call ''close_modals'' # A3
                                 @ Call ''resolve_gate'' # R
              \<and> filter is_expect_download (A1 @ A2 @ A3) = [])))
   \<and> (new_page b (world s) = (Inr page, w1)
        \<and> load_and_clear b page url (new_result inst url)
             \<lparr>world = w1, trace = trace s @ [Call ''harvest_one'', New_page]\<rparr> = (None, r1, s2)
        \<and> resolve_gate b profile page r1 s2 = ((False, msg), r2, s3)
      \<longrightarrow> attempts s3 = attempts s
        \<and> trace (snd (harvest_one b profile inst url s)) =
            trace s3 @ Screenshot page (screenshot_path inst ''manual_required'')
              # (case fst (screenshot b page (screenshot_path inst ''manual_required'') (world s3)) of
                   Inr u \<Rightarrow> [] | Inl e \<Rightarrow> [Screenshot page (screenshot_path inst ''error'')])
              @ [Close page]
        \<and> (\<forall>r. fst (harvest_one b profile inst url s) = Inr r \<longrightarrow>
              (case fst (screenshot b page (screenshot_path inst ''manual_required'') (world s3)) of
                 Inr u \<Rightarrow> status r = ''manual_required'' \<and> result_notes r = Some msg
               | Inl e \<Rightarrow> status r = ''error'' \<and> result_notes r = Some (exn_repr e))))
   \<and> (new_page b (world s) = (Inr page, w1)
        \<and> goto b page url w1 = (Inr resp, w2)
        \<and> \<not> is_pdf_response resp
        \<and> PdfHarvester_try_download_buttons b page inst
             ((empty_dict url)\<lparr>d_final_url := page_url b page w2\<rparr>)
             (PdfHarvester_handle_popups b page (PdfHarvester_handle_cookies b page
                \<lparr>world = w2, trace = trace s @ [Call ''process_url'', New_page, Goto page url]\<rparr>))
           = (found, result1, t3)
        \<and> PdfHarvester_check_compliance_gate b profile page t3 = (Inr ''manual_required'', t4)
      \<longrightarrow> trace (snd (process_url b profile inst url s)) =
            trace t4
              @ [Screenshot page
                   (os_path_join (config_SCREENSHOT_DIR b)
                      (inst @ ''_manual_required'' @ ''_'' @ now_stamp b (world t4) @ ''.png'')),
                 Close page]
        \<and> (\<forall>v. fst (process_url b profile inst url s) = Inr v \<longrightarrow>
              (\<exists>d. v = Result d \<and> d_status d = ''manual_required'' \<and> d_file_path d = [])))"
  using harvest_one_gate_first [of b profile inst url s]
    harvest_one_manual [of b s page w1 url inst r1 s2 profile msg r2 s3]
    process_url_manual [of b s page w1 url resp w2 inst found result1 t3 profile t4]
  by blast

lemma process_url_gate_page:
  "fst (process_url gate_page ''unknown'' acme outlook_url start) =
     Inr (Result \<lparr>d_start_url = ''https://example.org/outlook'',
                   d_final_url = ''https://example.org/outlook'',
                   d_status = ''manual_required'',
                   d_notes = ''Compliance gate detected, manual intervention required.'',
                   d_file_path = []\<rparr>)"
  by code_simp

theorem gate_before_downloads_witness:
  "fst gate_task_loaded = None
   \<and> fst gate_task_checked = (False, ''Gate detected; profile=unknown => manual required.'')
   \<and> attempts (snd (snd gate_task_checked)) = 0
   \<and> trace (snd (harvest_one gate_page ''unknown'' acme outlook_url start)) =
       trace (snd (snd gate_task_checked))
         @ [Screenshot 0 ''logs/screenshots/acme_capital_manual_required.png'', Close 0]
   \<and> (\<exists>r. fst (harvest_one gate_page ''unknown'' acme outlook_url start) = Inr r
          \<and> status r = ''manual_required''
          \<and> result_notes r = Some ''Gate detected; profile=unknown => manual required.'')
   \<and> fst gate_task_gate = Inr ''manual_required''
   \<and> trace (snd (process_url gate_page ''unknown'' acme outlook_url start)) =
       trace (snd gate_task_gate)
         @ [Screenshot 0 ''/opt/harvester/logs/screenshots/Acme Capital_manual_required_20261104_120000.png'',
            Close 0]
   \<and> (\<exists>d. fst (process_url gate_page ''unknown'' acme outlook_url start) = Inr (Result d)
          \<and> d_status d = ''manual_required'' \<and> d_file_path d = [])"
proof -
  have np: "new_page gate_page (world start) = (Inr 0, 1)"
    by (simp add: gate_page_def quiet_def start_def)
  have ts: "trace start = []" "attempts start = 0"
    by (simp_all add: start_def attempts_def)
  have l: "fst gate_task_loaded = None"
    by code_simp
  have lc: "load_and_clear gate_page 0 outlook_url (new_result acme outlook_url)
              \<lparr>world = 1, trace = trace start @ [Call ''harvest_one'', New_page]\<rparr>
            = (None, fst (snd gate_task_loaded), snd (snd gate_task_loaded))"
    using l by (simp add: gate_task_loaded_def ts prod_eq_iff)
  have c: "fst gate_task_checked = (False, ''Gate detected; profile=unknown => manual required.'')"
    by code_simp
  have rg: "resolve_gate gate_page ''unknown'' 0 (fst (snd gate_task_loaded)) (snd (snd gate_task_loaded))
            = ((False, ''Gate detected; profile=unknown => manual required.''),
               fst (snd gate_task_checked), snd (snd gate_task_checked))"
    using c by (simp add: gate_task_checked_def prod_eq_iff)
  have shot: "fst (screenshot gate_page 0 pth w) = Inr ()" for pth w
    by (simp add: gate_page_def quiet_def)
  have path: "screenshot_path acme ''manual_required'' = ''logs/screenshots/acme_capital_manual_required.png''"
    by code_simp
  have ok: "\<exists>r. fst (harvest_one gate_page ''unknown'' acme outlook_url start) = Inr r"
  proof -
    have "fst (harvest_one gate_page ''unknown'' acme outlook_url start) =
            Inr \<lparr>institution = ''Acme Capital'', start_url = ''https://example.org/outlook'',
                  final_url = Some ''https://example.org/outlook'', status = ''manual_required'',
                  file_path = None,
                  result_notes = Some ''Gate detected; profile=unknown => manual required.'',
                  actions = [''gate_detected'']\<rparr>"
      by code_simp
    then show ?thesis by blast
  qed
  have g: "goto gate_page 0 outlook_url 1 = (Inr None, 1)"
    by (simp add: gate_page_def quiet_def)
  have nr: "\<not> is_pdf_response None"
    by (simp add: is_pdf_response_def)
  have scan: "PdfHarvester_try_download_buttons gate_page 0 acme
                ((empty_dict outlook_url)\<lparr>d_final_url := page_url gate_page 0 1\<rparr>)
                (PdfHarvester_handle_popups gate_page 0 (PdfHarvester_handle_cookies gate_page 0
                   \<lparr>world = 1, trace = trace start @ [Call ''process_url'', New_page, Goto 0 outlook_url]\<rparr>))
              = (fst gate_task_scanned, fst (snd gate_task_scanned), snd (snd gate_task_scanned))"
    by (simp add: gate_task_scanned_def ts)
  have gg: "fst gate_task_gate = Inr ''manual_required''"
    by code_simp
  have gate: "PdfHarvester_check_compliance_gate gate_page ''unknown'' 0 (snd (snd gate_task_scanned))
              = (Inr ''manual_required'', snd gate_task_gate)"
    using gg by (simp add: gate_task_gate_def prod_eq_iff)
  have stamp: "os_path_join (config_SCREENSHOT_DIR gate_page)
                 (acme @ ''_manual_required'' @ ''_''
                  @ now_stamp gate_page (world (snd gate_task_gate)) @ ''.png'')
               = ''/opt/harvester/logs/screenshots/Acme Capital_manual_required_20261104_120000.png''"
    by (simp add: os_path_join_def config_SCREENSHOT_DIR_def config_LOG_DIR_def endswith_def
        gate_page_def quiet_def acme_def)
  have okp: "\<exists>v. fst (process_url gate_page ''unknown'' acme outlook_url start) = Inr v"
    using process_url_gate_page by blast
  note gb = gate_before_downloads [of gate_page "''unknown''" acme outlook_url start 0 1
      "fst (snd gate_task_loaded)" "snd (snd gate_task_loaded)"
      "''Gate detected; profile=unknown => manual required.''"
      "fst (snd gate_task_checked)" "snd (snd gate_task_checked)"
      None 1 "fst gate_task_scanned" "fst (snd gate_task_scanned)" "snd (snd gate_task_scanned)"
      "snd gate_task_gate"]
  from gb np lc rg have h2:
    "attempts (snd (snd gate_task_checked)) = attempts start
     \<and> trace (snd (harvest_one gate_page ''unknown'' acme outlook_url start)) =
        trace (snd (snd gate_task_checked)) @ Screenshot 0 (screenshot_path acme ''manual_required'')
          # (case fst (screenshot gate_page 0 (screenshot_path acme ''manual_required'')
                        (world (snd (snd gate_task_checked)))) of
               Inr u \<Rightarrow> [] | Inl e \<Rightarrow> [Screenshot 0 (screenshot_path acme ''error'')])
          @ [Close 0]
     \<and> (\<forall>r. fst (harvest_one gate_page ''unknown'' acme outlook_url start) = Inr r \<longrightarrow>
          (case fst (screenshot gate_page 0 (screenshot_path acme ''manual_required'')
                       (world (snd (snd gate_task_checked)))) of
             Inr u \<Rightarrow> status r = ''manual_required''
                      \<and> result_notes r = Some ''Gate detected; profile=unknown => manual required.''
           | Inl e \<Rightarrow> status r = ''error'' \<and> result_notes r = Some (exn_repr e)))"
    by blast
  from gb np g nr scan gate have p2:
    "trace (snd (process_url gate_page ''unknown'' acme outlook_url start)) =
        trace (snd gate_task_gate)
          @ [Screenshot 0 (os_path_join (config_SCREENSHOT_DIR gate_page)
                 (acme @ ''_manual_required'' @ ''_''
                  @ now_stamp gate_page (world (snd gate_task_gate)) @ ''.png'')), Close 0]
     \<and> (\<forall>v. fst (process_url gate_page ''unknown'' acme outlook_url start) = Inr v \<longrightarrow>
          (\<exists>d. v = Result d \<and> d_status d = ''manual_required'' \<and> d_file_path d = []))"
    by blast
  show ?thesis
    using l c gg h2 [unfolded path] p2 [unfolded stamp] ok okp
    by (auto simp: shot ts)
qed

text \<open>
  In \<open>process_url\<close> a download is attempted before the gate is checked: on the page
  with the download element and gate keywords, the attempt comes first, and the task then
  ends with status \<open>manual_required\<close>.
\<close>

theorem process_url_downloads_before_gate:
  "filter (\<lambda>e. is_expect_download e \<or> e = Call ''_check_compliance_gate'')
     (trace (snd (process_url download_gate_page ''unknown'' ''Acme Capital''
                    ''https://example.org/outlook'' start)))
     = [Expect_download 0, Call ''_check_compliance_gate'']
   \<and> fst (process_url download_gate_page ''unknown'' ''Acme Capital'' ''https://example.org/outlook'' start)
     = Inr (Result \<lparr>d_start_url = ''https://example.org/outlook'',
                     d_final_url = ''https://example.org/outlook'',
                     d_status = ''manual_required'',
                     d_notes = ''Compliance gate detected, manual intervention required.'',
                     d_file_path = []\<rparr>)"
  by code_simp

section \<open>Status and file path of a result\<close>

lemma kept_refl [simp]: "kept r r"
  by (simp add: kept_def)

lemma kept_append_action [simp]: "kept r0 r \<Longrightarrow> kept r0 (append_action a r)"
  by (simp add: kept_def append_action_def)

lemma kept_handle_cookies [simp]: "kept r0 r \<Longrightarrow> kept r0 (fst (handle_cookies b page r s))"
  by (simp add: handle_cookies_def case_prod_beta split: bool.split)

lemma kept_click_close_icons [simp]:
  "kept r0 r \<Longrightarrow> kept r0 (fst (click_close_icons b page sels r s))"
  by (induction sels arbitrary: s r) (simp_all add: case_prod_beta split: sum.split)

lemma kept_close_modals [simp]: "kept r0 r \<Longrightarrow> kept r0 (fst (close_modals b page r s))"
  by (simp add: close_modals_def case_prod_beta)

lemma kept_linkedin [simp]:
  "kept r0 r \<Longrightarrow> kept r0 (fst (handle_linkedin_interstitial b page r s))"
  by (simp add: handle_linkedin_interstitial_def case_prod_beta Let_def split: bool.split)

lemma kept_resolve_gate [simp]:
  "kept r0 r \<Longrightarrow> kept r0 (fst (snd (resolve_gate b profile page r s)))"
  by (simp add: resolve_gate_def case_prod_beta Let_def split: bool.split)

lemma kept_try_download_hint [simp]:
  "kept r0 r \<Longrightarrow> kept r0 (fst (snd (try_download_hint b page inst hint r s)))"
  by (simp add: try_download_hint_def case_prod_beta Let_def split: sum.split bool.split)

lemma kept_try_download_hints [simp]:
  "kept r0 r \<Longrightarrow> kept r0 (fst (snd (try_download_hints b page inst hints r s)))"
  by (induction hints arbitrary: s r) (simp_all add: case_prod_beta split: option.split)

lemma kept_try_download_event [simp]:
  "kept r0 r \<Longrightarrow> kept r0 (fst (snd (try_download_event b page inst r s)))"
  by (simp add: try_download_event_def)

lemma kept_load_and_clear [simp]:
  "kept r0 r \<Longrightarrow> kept r0 (fst (snd (load_and_clear b page url r s)))"
  by (simp add: load_and_clear_def case_prod_beta split: sum.split)

lemma try_download_event_path:
  assumes "fst (try_download_event b page inst r s) = Some out"
  shows "out \<noteq> []"
proof -
  have "try_download_event b page inst r s =
          (fst (try_download_event b page inst r s), fst (snd (try_download_event b page inst r s)),
           snd (snd (try_download_event b page inst r s)))"
    by simp
  from try_download_event_priority [OF this] assms show ?thesis
    by (auto simp: DOWNLOAD_DIR_def)
qed

lemma good_downloaded:
  "out \<noteq> [] \<Longrightarrow> good r0 (Returned, downloaded out u r, s)"
  by (simp add: good_def downloaded_def)

lemma good_close_finally:
  "closes_ok b \<Longrightarrow> good r0 x \<Longrightarrow> good r0 (close_finally b p x)"
  by (cases "fst x")
     (simp_all add: close_finally_def closes_ok_def good_def perform_eq case_prod_beta)

lemma good_download_in_page:
  "kept r0 r \<Longrightarrow> good r0 (download_in_page b p inst target r s)"
  by (auto simp: download_in_page_def case_prod_beta good_def downloaded_def
      dest: try_download_event_path split: sum.split option.split)

lemma good_open_and_download:
  "closes_ok b \<Longrightarrow> kept r0 r \<Longrightarrow> good r0 (open_and_download b inst target r s)"
proof -
  assume c: "closes_ok b" and k: "kept r0 r"
  show ?thesis
  proof (cases "fst (perform New_page (new_page b) s)")
    case (Inl e)
    then show ?thesis using k by (simp add: open_and_download_def case_prod_beta good_def)
  next
    case (Inr p)
    then show ?thesis
      using good_close_finally [OF c good_download_in_page [OF k]]
      by (simp add: open_and_download_def case_prod_beta)
  qed
qed

lemma good_follow_sniffed:
  "closes_ok b \<Longrightarrow> kept r0 r \<Longrightarrow> good r0 (follow_sniffed b inst p2 r s)"
  using good_open_and_download [of b r0 r inst "sniffed b p2 (world s)" s]
  by (auto simp: follow_sniffed_def good_def case_prod_beta split: flow.splits)

lemma good_candidate_body:
  assumes "closes_ok b" and "kept r0 r"
  shows "good r0 (candidate_body b profile inst p2 cand r s)"
proof (cases "fst (perform (Goto p2 cand) (goto b p2 cand) s)")
  case (Inl e)
  then show ?thesis using assms by (simp add: candidate_body_def case_prod_beta good_def)
next
  case (Inr resp)
  define s1 where "s1 = do_sleep b 800 (snd (perform (Goto p2 cand) (goto b p2 cand) s))"
  define g where "g = resolve_gate b profile p2 (fst (close_modals b p2 (fst (handle_cookies b p2 r s1))
      (snd (handle_cookies b p2 r s1)))) (snd (close_modals b p2 (fst (handle_cookies b p2 r s1))
      (snd (handle_cookies b p2 r s1))))"
  have k3: "kept r0 (fst (snd g))"
    using assms(2) by (simp add: g_def)
  define d where "d = try_download_event b p2 inst (fst (snd g)) (snd (snd g))"
  have k4: "kept r0 (fst (snd d))"
    using k3 by (simp add: d_def)
  have cb: "candidate_body b profile inst p2 cand r s =
      (if fst (fst g) then
         (case fst d of
            Some out2 \<Rightarrow> (Returned, downloaded out2 (page_url b p2 (world (snd (snd d)))) (fst (snd d)), snd (snd d))
          | None \<Rightarrow> follow_sniffed b inst p2 (fst (snd d)) (snd (snd d)))
       else (Next, fst (snd g), snd (snd g)))"
    using Inr
    by (simp add: candidate_body_def case_prod_beta g_def d_def s1_def split: bool.split option.split)
  show ?thesis
  proof (cases "fst (fst g)")
    case False
    then show ?thesis using cb k3 by (simp add: good_def)
  next
    case True
    show ?thesis
    proof (cases "fst d")
      case None
      then show ?thesis
        using cb True good_follow_sniffed [OF assms(1) k4] by simp
    next
      case (Some out2)
      then have "out2 \<noteq> []"
        using try_download_event_path [of b p2 inst "fst (snd g)" "snd (snd g)" out2] by (simp add: d_def)
      then show ?thesis
        using cb True Some good_downloaded by simp
    qed
  qed
qed

lemma good_visit_candidate:
  assumes "closes_ok b" and "kept r0 r"
  shows "good r0 (visit_candidate b profile inst cand r s)"
proof (cases "fst (perform New_page (new_page b) s)")
  case (Inl e)
  then show ?thesis using assms by (simp add: visit_candidate_def case_prod_beta good_def)
next
  case (Inr p2)
  then show ?thesis
    using good_close_finally [OF assms(1) good_candidate_body [OF assms]]
    by (simp add: visit_candidate_def case_prod_beta)
qed

lemma good_crawl_candidates:
  assumes "closes_ok b"
  shows "kept r0 r \<Longrightarrow> good r0 (crawl_candidates b profile inst cands r s)"
proof (induction cands arbitrary: r s)
  case Nil
  then show ?case by (simp add: good_def)
next
  case (Cons cand cands)
  obtain fl r1 s1 where v: "visit_candidate b profile inst cand r s = (fl, r1, s1)"
    by (cases "visit_candidate b profile inst cand r s") auto
  have g: "good r0 (fl, r1, s1)"
    using good_visit_candidate [OF assms Cons.prems, of profile inst cand s] v by simp
  show ?case
  proof (cases fl)
    case Next
    with g have "kept r0 r1" by (simp add: good_def)
    from Cons.IH [OF this] show ?thesis using v Next by simp
  next
    case Returned
    with g v show ?thesis by simp
  next
    case (Raised e)
    with g v show ?thesis by simp
  qed
qed

lemma settled_screenshot_and_return:
  "consistent r \<Longrightarrow> file_path r = None \<Longrightarrow> settled (screenshot_and_return b page inst tag r s)"
  by (simp add: screenshot_and_return_def settled_def case_prod_beta split: sum.split)

lemma settled_of_good:
  "good r0 x \<Longrightarrow> file_path r0 = None \<Longrightarrow> fst x \<noteq> Next \<Longrightarrow> settled x"
  by (cases "fst x") (auto simp: good_def settled_def kept_def consistent_def)

lemma settled_crawl_and_report:
  assumes "closes_ok b" and "kept r0 r" and "file_path r0 = None"
  shows "settled (crawl_and_report b profile page inst r s)"
proof -
  define c where "c = crawl_candidates b profile inst (fst (collect_candidate_links b page s)) r
                         (snd (collect_candidate_links b page s))"
  have g: "good r0 c"
    unfolding c_def by (rule good_crawl_candidates [OF assms(1,2)])
  obtain fl r1 s1 where c: "c = (fl, r1, s1)"
    by (cases c) auto
  have cr: "crawl_and_report b profile page inst r s =
              (case c of
                 (Next, r1, s2) \<Rightarrow>
                   screenshot_and_return b page inst ''not_found''
                     (r1\<lparr>status := ''not_found'',
                         result_notes := Some ''No downloadable PDF detected via heuristics. Manual check needed.'',
                         final_url := Some (page_url b page (world s2))\<rparr>) s2
               | (fl, r1, s2) \<Rightarrow> (fl, r1, s2))"
    by (simp add: crawl_and_report_def c_def case_prod_beta)
  show ?thesis
  proof (cases "fst c = Next")
    case True
    then have k: "kept r0 (fst (snd c))"
      using g by (simp add: good_def)
    let ?r = "(fst (snd c))\<lparr>status := ''not_found'',
        result_notes := Some ''No downloadable PDF detected via heuristics. Manual check needed.'',
        final_url := Some (page_url b page (world (snd (snd c))))\<rparr>"
    have "consistent ?r" "file_path ?r = None"
      using k assms(3) by (simp_all add: consistent_def kept_def)
    then have "settled (screenshot_and_return b page inst ''not_found'' ?r (snd (snd c)))"
      by (rule settled_screenshot_and_return)
    then show ?thesis
      using True c by (simp add: cr)
  next
    case False
    then have "crawl_and_report b profile page inst r s = c"
      using c by (cases fl) (simp_all add: cr)
    then show ?thesis
      using settled_of_good [OF g assms(3) False] by simp
  qed
qed

lemma settled_follow_and_crawl:
  assumes "closes_ok b" and "kept r0 r" and "file_path r0 = None"
  shows "settled (follow_and_crawl b profile page inst r s)"
proof -
  define od where "od = (if sniffed b page (world s) \<noteq> []
                       then open_and_download b inst (sniffed b page (world s)) r s
                       else (Next, r, s))"
  have g: "good r0 od"
    using good_open_and_download [OF assms(1,2)] assms(2) by (simp add: od_def good_def)
  obtain fl r1 s1 where o: "od = (fl, r1, s1)"
    by (cases od) auto
  have fc: "follow_and_crawl b profile page inst r s =
              (case od of (Next, r1, s1) \<Rightarrow> crawl_and_report b profile page inst r1 s1
               | (fl, r1, s1) \<Rightarrow> (fl, r1, s1))"
    by (simp add: follow_and_crawl_def od_def)
  show ?thesis
  proof (cases "fst od = Next")
    case True
    then have "kept r0 (fst (snd od))"
      using g by (simp add: good_def)
    from settled_crawl_and_report [OF assms(1) this assms(3)] show ?thesis
      using True o by (simp add: fc)
  next
    case False
    then have "follow_and_crawl b profile page inst r s = od"
      using o by (cases fl) (simp_all add: fc)
    then show ?thesis
      using settled_of_good [OF g assms(3) False] by simp
  qed
qed

lemma settled_search_downloads:
  assumes "closes_ok b" and "kept r0 r" and "file_path r0 = None"
  shows "settled (search_downloads b profile page inst r s)"
proof -
  let ?r = "r\<lparr>final_url := Some (page_url b page (world s))\<rparr>"
  have k: "kept r0 ?r"
    using assms(2) by (simp add: kept_def)
  define d1 where "d1 = (if is_pdf_url (page_url b page (world s)) \<or> sniffed b page (world s) \<noteq> []
                         then try_download_event b page inst ?r s else (None, ?r, s))"
  have k1: "kept r0 (fst (snd d1))"
    using k by (simp add: d1_def)
  have p1: "fst d1 = Some out \<Longrightarrow> out \<noteq> []" for out
    using try_download_event_path [of b page inst ?r s out] by (simp add: d1_def split: if_splits)
  define d2 where "d2 = try_download_event b page inst (fst (snd d1)) (snd (snd d1))"
  have k2: "kept r0 (fst (snd d2))"
    using k1 by (simp add: d2_def)
  have p2: "fst d2 = Some out \<Longrightarrow> out \<noteq> []" for out
    using try_download_event_path [of b page inst "fst (snd d1)" "snd (snd d1)" out] by (simp add: d2_def)
  have sd: "search_downloads b profile page inst r s =
      (case fst d1 of
         Some out \<Rightarrow> (Returned, (fst (snd d1))\<lparr>status := ''downloaded'', file_path := Some out\<rparr>, snd (snd d1))
       | None \<Rightarrow>
           (case fst d2 of
              Some out \<Rightarrow> (Returned, downloaded out (page_url b page (world (snd (snd d2)))) (fst (snd d2)),
                            snd (snd d2))
            | None \<Rightarrow> follow_and_crawl b profile page inst (fst (snd d2)) (snd (snd d2))))"
    unfolding search_downloads_def Let_def d1_def [symmetric]
    by (simp add: case_prod_beta d2_def split: option.split)
  show ?thesis
  proof (cases "fst d1")
    case (Some out)
    with p1 [of out] show ?thesis
      by (simp add: sd settled_def consistent_def)
  next
    case None
    note n1 = this
    show ?thesis
    proof (cases "fst d2")
      case (Some out)
      with p2 [of out] n1 show ?thesis
        by (simp add: sd settled_def consistent_def downloaded_def)
    next
      case None
      with n1 settled_follow_and_crawl [OF assms(1) k2 assms(3)] show ?thesis
        by (simp add: sd)
    qed
  qed
qed

lemma settled_harvest_body:
  assumes "closes_ok b" and "kept r0 r" and "file_path r0 = None"
  shows "settled (harvest_body b profile page inst url r s)"
proof -
  define l where "l = load_and_clear b page url r s"
  have kl: "kept r0 (fst (snd l))"
    using assms(2) by (simp add: l_def)
  define g where "g = resolve_gate b profile page (fst (snd l)) (snd (snd l))"
  have kg: "kept r0 (fst (snd g))"
    using kl by (simp add: g_def)
  show ?thesis
  proof (cases "fst l")
    case (Some e)
    then show ?thesis
      using kl assms(3)
      by (simp add: harvest_body_def case_prod_beta l_def [symmetric] settled_def kept_def)
  next
    case None
    show ?thesis
    proof (cases "fst (fst g)")
      case True
      then show ?thesis
        using None settled_search_downloads [OF assms(1) kg assms(3)]
        by (simp add: harvest_body_def case_prod_beta l_def [symmetric] g_def [symmetric])
    next
      case False
      let ?r = "(fst (snd g))\<lparr>final_url := Some (page_url b page (world (snd (snd g)))),
                    status := ''manual_required'', result_notes := Some (snd (fst g))\<rparr>"
      have "consistent ?r" "file_path ?r = None"
        using kg assms(3) by (simp_all add: consistent_def kept_def)
      then have "settled (screenshot_and_return b page inst ''manual_required'' ?r (snd (snd g)))"
        by (rule settled_screenshot_and_return)
      then show ?thesis
        using None False
        by (simp add: harvest_body_def case_prod_beta l_def [symmetric] g_def [symmetric])
    qed
  qed
qed

lemma consistent_harvest_try:
  assumes "closes_ok b"
  shows "consistent (fst (harvest_try b profile page inst url (new_result inst url) s))"
proof -
  have "settled (harvest_body b profile page inst url (new_result inst url) s)"
    by (rule settled_harvest_body [OF assms kept_refl]) (simp add: new_result_def)
  then show ?thesis
    by (cases "fst (harvest_body b profile page inst url (new_result inst url) s)")
       (simp_all add: harvest_try_def settled_def report_error_def case_prod_beta consistent_def)
qed

lemma consistent_harvest_one:
  assumes "closes_ok b" and "fst (harvest_one b profile inst url s) = Inr r"
  shows "consistent r"
proof -
  obtain page where "fst (perform New_page (new_page b) (mark ''harvest_one'' s)) = Inr page"
    using assms(2)
    by (cases "fst (perform New_page (new_page b) (mark ''harvest_one'' s))")
       (auto simp: harvest_one_def case_prod_beta)
  then have "r = fst (harvest_try b profile page inst url (new_result inst url)
                        (snd (perform New_page (new_page b) (mark ''harvest_one'' s))))"
    using assms(2) by (simp add: harvest_one_def case_prod_beta split: sum.splits)
  then show ?thesis
    using consistent_harvest_try [OF assms(1)] by simp
qed

section \<open>The dictionary of harvester.py\<close>

lemma goto_expecting_download_result:
  "fst (goto_expecting_download b page inst href result s) \<noteq> Some True
   \<and> fst (snd (goto_expecting_download b page inst href result s)) = result"
  by (simp add: goto_expecting_download_def perform_eq save_download_fails split: sum.split)

lemma visit_candidates_result:
  "fst (visit_candidates b page inst cands result s) = False
   \<and> fst (snd (visit_candidates b page inst cands result s)) = result"
proof (induction cands arbitrary: s)
  case Nil
  then show ?case by simp
next
  case (Cons c cands)
  obtain score href where c: "c = (score, href)"
    by (cases c) auto
  define d where "d = (if endswith (lower href) ''.pdf''
                       then goto_expecting_download b page inst href result s
                       else (None, result, s))"
  have d: "fst d \<noteq> Some True" "fst (snd d) = result"
    using goto_expecting_download_result [of b page inst href result s] by (simp_all add: d_def)
  show ?case
  proof (cases "fst d")
    case (Some saved)
    with d have "saved = False" by simp
    with Some d show ?thesis
      by (simp add: c d_def [symmetric] case_prod_beta)
  next
    case None
    define s1 where "s1 = snd (perform (Goto page href) (goto b page href) (snd (snd d)))"
    have t: "fst (PdfHarvester_try_download_buttons b page inst result s1) = False"
      "fst (snd (PdfHarvester_try_download_buttons b page inst result s1)) = result"
      using try_download_buttons_result [of b page inst result s1] by simp_all
    show ?thesis
      using None d t Cons
      by (simp add: c d_def [symmetric] s1_def case_prod_beta split: sum.split)
  qed
qed

lemma try_fallback_links_result:
  "fst (PdfHarvester_try_fallback_links b page inst result s) \<noteq> Inr True
   \<and> fst (snd (PdfHarvester_try_fallback_links b page inst result s)) = result"
  by (simp add: PdfHarvester_try_fallback_links_def case_prod_beta visit_candidates_result
      split: sum.split)

lemma fallback_or_not_found_plain:
  assumes "d_file_path result = []" and "d_status result \<in> {''manual_required'', ''not_found'', ''error''}"
  shows "dict_plain (fallback_or_not_found b page inst result s)"
proof -
  define f where "f = PdfHarvester_try_fallback_links b page inst result s"
  have f: "fst f \<noteq> Inr True" "fst (snd f) = result"
    using try_fallback_links_result [of b page inst result s] by (simp_all add: f_def)
  show ?thesis
  proof (cases "fst f")
    case (Inl e)
    then show ?thesis
      using f assms by (simp add: fallback_or_not_found_def case_prod_beta f_def [symmetric] dict_plain_def)
  next
    case (Inr found)
    with f have "found = False" by simp
    with Inr f assms show ?thesis
      by (simp add: fallback_or_not_found_def case_prod_beta f_def [symmetric] dict_plain_def Let_def)
  qed
qed

lemma after_gate_check_plain:
  assumes "d_file_path result = []" and "d_status result \<in> {''manual_required'', ''not_found'', ''error''}"
  shows "dict_plain (after_gate_check b page inst gate_status result s)"
proof (cases "gate_status = ''manual_required''")
  case True
  then show ?thesis
    using assms by (simp add: after_gate_check_def case_prod_beta dict_plain_def Let_def)
next
  case False
  define t where "t = (if gate_status = ''gate_passed''
                       then PdfHarvester_try_download_buttons b page inst result s
                       else (False, result, s))"
  have t: "fst t = False" "fst (snd t) = result"
    using try_download_buttons_result [of b page inst result s] by (simp_all add: t_def)
  show ?thesis
    using False t fallback_or_not_found_plain [OF assms, of b page inst "snd (snd t)"]
    by (simp add: after_gate_check_def case_prod_beta t_def [symmetric])
qed

lemma scan_page_plain:
  assumes "d_file_path result = []" and "d_status result \<in> {''manual_required'', ''not_found'', ''error''}"
  shows "dict_plain (scan_page b profile page inst result s)"
proof -
  define t where "t = PdfHarvester_try_download_buttons b page inst result
             (PdfHarvester_handle_popups b page (PdfHarvester_handle_cookies b page s))"
  have t: "fst t = False" "fst (snd t) = result"
    using try_download_buttons_result [of b page inst result] by (simp_all add: t_def)
  define g where "g = PdfHarvester_check_compliance_gate b profile page (snd (snd t))"
  show ?thesis
  proof (cases "fst g")
    case (Inl e)
    then show ?thesis
      using t assms
      by (simp add: scan_page_def case_prod_beta t_def [symmetric] g_def [symmetric] dict_plain_def)
  next
    case (Inr gate_status)
    then show ?thesis
      using t after_gate_check_plain [OF assms, of b page inst gate_status "snd g"]
      by (simp add: scan_page_def case_prod_beta t_def [symmetric] g_def [symmetric])
  qed
qed

lemma process_url_body_plain:
  "dict_plain (process_url_body b profile page inst url (empty_dict url) s)"
proof (cases "fst (perform (Goto page url) (goto b page url) s)")
  case (Inl e)
  then show ?thesis
    by (simp add: process_url_body_def case_prod_beta dict_plain_def Let_def empty_dict_def)
next
  case (Inr resp)
  let ?result = "(empty_dict url)\<lparr>d_final_url := page_url b page (world (snd (perform (Goto page url) (goto b page url) s)))\<rparr>"
  have a: "d_file_path ?result = []" "d_status ?result \<in> {''manual_required'', ''not_found'', ''error''}"
    by (simp_all add: empty_dict_def)
  show ?thesis
  proof (cases "is_pdf_response resp")
    case True
    then show ?thesis
      using Inr a
      by (simp add: process_url_body_def case_prod_beta Let_def dict_plain_def
          PdfHarvester_handle_direct_pdf_download_def)
  next
    case False
    then show ?thesis
      using Inr scan_page_plain [OF a]
      by (simp add: process_url_body_def case_prod_beta Let_def)
  qed
qed

lemma process_url_dict_consistent:
  assumes "fst (process_url b profile inst url s) = Inr (Result d)"
  shows "dict_consistent d \<and> d_status d \<noteq> ''downloaded''"
proof -
  obtain page where p: "fst (perform New_page (new_page b) (mark ''process_url'' s)) = Inr page"
    using assms
    by (cases "fst (perform New_page (new_page b) (mark ''process_url'' s))")
       (auto simp: process_url_def case_prod_beta)
  let ?s1 = "snd (perform New_page (new_page b) (mark ''process_url'' s))"
  have v: "fst (process_url_try b profile page inst url (empty_dict url) ?s1) = Result d"
    using assms p by (simp add: process_url_def case_prod_beta split: sum.splits)
  define x where "x = process_url_body b profile page inst url (empty_dict url) ?s1"
  have pl: "dict_plain x"
    unfolding x_def by (rule process_url_body_plain)
  have "d_file_path d = [] \<and> d_status d \<in> {''manual_required'', ''not_found'', ''error''}"
  proof (cases "fst x")
    case (Inl e)
    then show ?thesis
      using v pl by (auto simp: process_url_try_def case_prod_beta x_def [symmetric] dict_plain_def)
  next
    case (Inr w)
    then show ?thesis
      using v pl by (auto simp: process_url_try_def case_prod_beta x_def [symmetric] dict_plain_def)
  qed
  then show ?thesis
    by (auto simp: dict_consistent_def)
qed

text \<open>
  C3 (amended).  Every result \<open>harvest_one\<close> returns in a browser where closing a
  page never raises has one of the four statuses, and a file path, not empty, exactly when
  its status is \<open>downloaded\<close>.  Every dictionary \<open>process_url\<close> returns has one of
  the four statuses and a file path exactly when its status is \<open>downloaded\<close> (it never
  is, since no download is ever saved there).
\<close>

theorem result_status_and_file_path:
  "(closes_ok b \<and> fst (harvest_one b profile inst url s) = Inr r
      \<longrightarrow> status r \<in> {''downloaded'', ''manual_required'', ''not_found'', ''error''}
          \<and> (file_path r \<noteq> None \<longleftrightarrow> status r = ''downloaded'')
          \<and> file_path r \<noteq> Some [])
   \<and> (fst (process_url b profile inst url s) = Inr (Result d)
      \<longrightarrow> d_status d \<in> {''downloaded'', ''manual_required'', ''not_found'', ''error''}
          \<and> (d_file_path d \<noteq> [] \<longleftrightarrow> d_status d = ''downloaded''))"
  using consistent_harvest_one [of b profile inst url s r]
    process_url_dict_consistent [of b profile inst url s d]
  unfolding consistent_def dict_consistent_def by blast

theorem result_status_and_file_path_witness:
  "closes_ok pdf_only_page
   \<and> fst (harvest_one pdf_only_page ''unknown'' acme outlook_url start) =
       Inr \<lparr>institution = ''Acme Capital'', start_url = ''https://example.org/outlook'',
             final_url = Some ''https://example.org/outlook'', status = ''downloaded'',
             file_path = Some ''downloads/acme_capital_2026.pdf'', result_notes = None,
             actions = [''downloaded_via_click:pdf'']\<rparr>
   \<and> fst (process_url gate_page ''unknown'' acme outlook_url start) =
       Inr (Result \<lparr>d_start_url = ''https://example.org/outlook'',
                     d_final_url = ''https://example.org/outlook'',
                     d_status = ''manual_required'',
                     d_notes = ''Compliance gate detected, manual intervention required.'',
                     d_file_path = []\<rparr>)"
proof -
  have a: "closes_ok pdf_only_page"
    by (simp add: closes_ok_def pdf_only_page_def quiet_def)
  have h: "fst (harvest_one pdf_only_page ''unknown'' acme outlook_url start) =
       Inr \<lparr>institution = ''Acme Capital'', start_url = ''https://example.org/outlook'',
             final_url = Some ''https://example.org/outlook'', status = ''downloaded'',
             file_path = Some ''downloads/acme_capital_2026.pdf'', result_notes = None,
             actions = [''downloaded_via_click:pdf'']\<rparr>"
    by code_simp
  note p = process_url_gate_page
  show ?thesis
    using result_status_and_file_path [of pdf_only_page "''unknown''" acme outlook_url start
        "\<lparr>institution = ''Acme Capital'', start_url = ''https://example.org/outlook'',
             final_url = Some ''https://example.org/outlook'', status = ''downloaded'',
             file_path = Some ''downloads/acme_capital_2026.pdf'', result_notes = None,
             actions = [''downloaded_via_click:pdf'']\<rparr>"
        "\<lparr>d_start_url = ''https://example.org/outlook'',
                     d_final_url = ''https://example.org/outlook'',
                     d_status = ''manual_required'',
                     d_notes = ''Compliance gate detected, manual intervention required.'',
                     d_file_path = []\<rparr>"] a h p
    by simp
qed

text \<open>
  When the page opened for a candidate link raises on \<open>close\<close> after the download was
  saved and recorded, the exception reaches the handler of \<open>harvest_one\<close>: the result
  returned has status \<open>error\<close> and still holds the file path.
\<close>

theorem close_failure_keeps_file_path:
  "\<not> closes_ok closing_fails_page
   \<and> fst (harvest_one closing_fails_page ''unknown'' ''Acme Capital'' ''https://example.org/outlook'' start) =
       Inr \<lparr>institution = ''Acme Capital'', start_url = ''https://example.org/outlook'',
             final_url = Some ''https://example.org/outlook'', status = ''error'',
             file_path = Some ''downloads/acme_capital_2026.pdf'',
             result_notes = Some (''Error('' @ [CHR 0x27] @ ''Connection closed'' @ [CHR 0x27] @ '')''),
             actions = [''downloaded_via_click:download'']\<rparr>"
proof -
  have "fst (close closing_fails_page 1 0) \<noteq> Inr ()"
    by (simp add: closing_fails_page_def quiet_def)
  then have a: "\<not> closes_ok closing_fails_page"
    unfolding closes_ok_def by blast
  have b: "fst (harvest_one closing_fails_page ''unknown'' ''Acme Capital'' ''https://example.org/outlook'' start) =
       Inr \<lparr>institution = ''Acme Capital'', start_url = ''https://example.org/outlook'',
             final_url = Some ''https://example.org/outlook'', status = ''error'',
             file_path = Some ''downloads/acme_capital_2026.pdf'',
             result_notes = Some (''Error('' @ [CHR 0x27] @ ''Connection closed'' @ [CHR 0x27] @ '')''),
             actions = [''downloaded_via_click:download'']\<rparr>"
    by code_simp
  show ?thesis
    using a b by simp
qed

end
